theory Spec2Isabelle
  imports Complex_Main "HOL-Library.Word"
begin

unbundle bit_operations_syntax

section \<open>ModSynth: a shallow embedding of modsynth.cpp and midi.cpp\<close>

text \<open>
  Conventions of the embedding.
  \<^item> A C++ \<^verbatim>\<open>float\<close> is modelled by a \<^typ>\<open>real\<close>: every arithmetic operation is the exact
    one, so rounding, infinities and NaN are outside the model. \<^verbatim>\<open>std::exp2\<close> is
    \<open>2 powr x\<close>, \<^verbatim>\<open>std::floor\<close> and \<^verbatim>\<open>std::ceil\<close> are \<open>floor\<close> and \<open>ceiling\<close>.
    The oscillator has a second model, in which every operation is rounded to binary32
    (\<open>f32\<close>), for the property that depends on the rounding.
  \<^item> The fields of an \<^verbatim>\<open>unsigned char\<close> are \<^typ>\<open>8 word\<close>, a \<^verbatim>\<open>std::bitset<128>\<close> is a
    \<^typ>\<open>128 word\<close>.
  \<^item> Undefined behaviour of the C++ (an index out of range, \<^verbatim>\<open>pop_back\<close> on an empty
    container, a remainder by zero) and thrown exceptions are values of the type \<open>error\<close>.
\<close>

subsection \<open>The time step\<close>

text \<open>\<^verbatim>\<open>static constexpr float dt = 1.0f / 48000.0f;\<close>\<close>

definition dt :: real where
  "dt = 1 / 48000"

subsection \<open>The module registry (Registry, Module::Module, Module::~Module)\<close>

text \<open>
  The registry is a \<^verbatim>\<open>std::vector<Module *>\<close>: a list of module pointers, of any type
  \<open>'m\<close> of pointers. The constructor of \<^verbatim>\<open>Module\<close> does \<^verbatim>\<open>push_back(this)\<close>, and so does
  the destructor.
\<close>

type_synonym 'm registry = "'m list"

definition Module_ctor :: "'m \<Rightarrow> 'm registry \<Rightarrow> 'm registry" where
  "Module_ctor this modules = modules @ [this]"

definition Module_dtor :: "'m \<Rightarrow> 'm registry \<Rightarrow> 'm registry" where
  "Module_dtor this modules = modules @ [this]"

subsection \<open>VCO\<close>

text \<open>
  \<^verbatim>\<open>struct VCO\<close>: one input and four outputs. The constructor \<^verbatim>\<open>VCO(float frequency)\<close>
  leaves the outputs at their default member initialisers (\<^verbatim>\<open>sawtooth_out{-1}\<close>,
  \<^verbatim>\<open>sine_out{}\<close>, \<^verbatim>\<open>square_out{1}\<close>, \<^verbatim>\<open>triangle_out{}\<close>).
\<close>

record VCO =
  frequency :: real
  sawtooth_out :: real
  sine_out :: real
  square_out :: real
  triangle_out :: real

definition VCO_ctor :: "real \<Rightarrow> VCO" where
  "VCO_ctor f =
     \<lparr>frequency = f, sawtooth_out = - 1, sine_out = 0, square_out = 1, triangle_out = 0\<rparr>"

text \<open>
  \<^verbatim>\<open>std::rint\<close> in the default rounding mode (the code never changes the mode): the
  nearest integer, a tie going to the even neighbour.
\<close>

definition rint :: "real \<Rightarrow> real" where
  "rint x =
     (let n = \<lfloor>x\<rfloor>; d = x - of_int n in
      if d < 1 / 2 then of_int n
      else if 1 / 2 < d then of_int (n + 1)
      else if even n then of_int n else of_int (n + 1))"

text \<open>\<^verbatim>\<open>const float pi = 4.0f * std::atan(1.0f);\<close>\<close>

definition pi_f :: real where
  "pi_f = 4 * arctan 1"

text \<open>
  The local variable \<^verbatim>\<open>phase\<close> of \<^verbatim>\<open>VCO::update\<close> after its three assignments: recovered
  from the sawtooth output as \<^verbatim>\<open>sawtooth_out * 0.5f - 0.5f\<close>, advanced by
  \<^verbatim>\<open>frequency * dt\<close>, and reduced by its floor.
\<close>

definition VCO_wrapped_phase :: "VCO \<Rightarrow> real" where
  "VCO_wrapped_phase v =
     (let phase = sawtooth_out v * 0.5 - 0.5;
          phase = phase + frequency v * dt;
          phase = phase - of_int \<lfloor>phase\<rfloor>
      in phase)"

definition VCO_update :: "VCO \<Rightarrow> VCO" where
  "VCO_update v =
     (let phase = VCO_wrapped_phase v in
      v\<lparr>sawtooth_out := phase * 2 - 1,
        sine_out := sin (phase * 2 * pi_f),
        square_out := rint phase * (- 2) + 1,
        triangle_out := \<bar>phase - 0.5\<bar> * 4 - 1\<rparr>)"

text \<open>
  The phase a sawtooth output stands for: the sawtooth is written as \<open>2 p - 1\<close>, so the
  phase read back from it is \<open>(sawtooth + 1) / 2\<close>.
\<close>

definition VCO_phase :: "VCO \<Rightarrow> real" where
  "VCO_phase v = (sawtooth_out v + 1) / 2"

subsection \<open>VCO in binary32\<close>

text \<open>
  Rounding to binary32, to nearest with ties to even, as a function on the reals. The unit
  in the last place of \<open>x\<close> is \<open>2 ^ (e - 23)\<close> for the exponent \<open>e\<close> of \<open>x\<close>, not below
  \<open>- 126\<close> (below that the numbers are subnormal); \<open>f32 x\<close> is the multiple of that unit
  nearest to \<open>x\<close>. Overflow to infinity is not modelled: the values of the oscillator
  stay far below \<open>2 ^ 128\<close>.
\<close>

definition ulp32 :: "real \<Rightarrow> real" where
  "ulp32 x =
     (if x = 0 then 2 powr (- 149)
      else 2 powr (real_of_int (max \<lfloor>log 2 \<bar>x\<bar>\<rfloor> (- 126)) - 23))"

definition f32 :: "real \<Rightarrow> real" where
  "f32 x = rint (x / ulp32 x) * ulp32 x"

text \<open>\<^verbatim>\<open>static constexpr float dt = 1.0f / 48000.0f;\<close> as the binary32 value it is.\<close>

definition dt_f32 :: real where
  "dt_f32 = f32 (1 / 48000)"

text \<open>
  \<^verbatim>\<open>const float pi = 4.0f * std::atan(1.0f);\<close> with \<^verbatim>\<open>std::atan\<close> and, below, \<^verbatim>\<open>std::sin\<close>
  taken as correctly rounded; no property stated here depends on them.
\<close>

definition pi_f32 :: real where
  "pi_f32 = f32 (4 * f32 (arctan 1))"

text \<open>
  \<^verbatim>\<open>VCO::update\<close> with each operation rounded, in the order of the source:
  \<^verbatim>\<open>sawtooth_out * 0.5f\<close>, then \<^verbatim>\<open>- 0.5f\<close>; \<^verbatim>\<open>frequency * dt\<close>, then the addition to
  \<^verbatim>\<open>phase\<close>; the subtraction of \<^verbatim>\<open>std::floor(phase)\<close>, which is an integer and exact;
  and for each output its multiplication and its addition or subtraction.
\<close>

definition VCO_wrapped_phase_f32 :: "VCO \<Rightarrow> real" where
  "VCO_wrapped_phase_f32 v =
     (let phase = f32 (f32 (sawtooth_out v * 0.5) - 0.5);
          phase = f32 (phase + f32 (frequency v * dt_f32));
          phase = f32 (phase - of_int \<lfloor>phase\<rfloor>)
      in phase)"

definition VCO_update_f32 :: "VCO \<Rightarrow> VCO" where
  "VCO_update_f32 v =
     (let phase = VCO_wrapped_phase_f32 v in
      v\<lparr>sawtooth_out := f32 (f32 (phase * 2) - 1),
        sine_out := f32 (sin (f32 (f32 (phase * 2) * pi_f32))),
        square_out := f32 (f32 (rint phase * (- 2)) + 1),
        triangle_out := f32 (f32 (\<bar>f32 (phase - 0.5)\<bar> * 4) - 1)\<rparr>)"

subsection \<open>Envelope\<close>

datatype envelope_state = ATTACK | DECAY | RELEASE

record Envelope =
  gate_in :: real
  attack :: real
  decay :: real
  release :: real
  amplitude_out :: real
  state :: envelope_state

text \<open>The \<^verbatim>\<open>if\<close> / \<^verbatim>\<open>else if\<close> at the head of \<^verbatim>\<open>Envelope::update\<close>.\<close>

definition Envelope_transition :: "Envelope \<Rightarrow> Envelope" where
  "Envelope_transition e =
     (if gate_in e \<le> 0 then e\<lparr>state := RELEASE\<rparr>
      else if state e = RELEASE then e\<lparr>state := ATTACK\<rparr>
      else e)"

text \<open>The \<^verbatim>\<open>switch (state)\<close> of \<^verbatim>\<open>Envelope::update\<close>.\<close>

definition Envelope_action :: "Envelope \<Rightarrow> Envelope" where
  "Envelope_action e =
     (case state e of
        ATTACK \<Rightarrow>
          (let e1 = e\<lparr>amplitude_out := amplitude_out e + dt / attack e\<rparr> in
           if amplitude_out e1 \<ge> 1 then e1\<lparr>amplitude_out := 1, state := DECAY\<rparr> else e1)
      | DECAY \<Rightarrow> e\<lparr>amplitude_out := amplitude_out e * 2 powr (- dt / decay e)\<rparr>
      | RELEASE \<Rightarrow> e\<lparr>amplitude_out := amplitude_out e * 2 powr (- dt / release e)\<rparr>)"

definition Envelope_update :: "Envelope \<Rightarrow> Envelope" where
  "Envelope_update e = Envelope_action (Envelope_transition e)"

subsection \<open>Errors\<close>

text \<open>
  What the C++ leaves undefined or throws. \<open>IndexOutOfBounds\<close>: \<^verbatim>\<open>operator[]\<close> beyond the
  size of a container or array. \<open>PopEmpty\<close>: \<^verbatim>\<open>pop_back\<close> on an empty deque.
  \<open>RemainderByZero\<close>: \<^verbatim>\<open>%\<close> by zero. \<open>BadConversion\<close>: a floating value converted to
  \<^verbatim>\<open>size_t\<close> that is negative or not below \<open>2 ^ 64\<close>. \<open>Out_of_range\<close> and \<open>Invalid_argument\<close> are the exceptions
  \<^verbatim>\<open>std::out_of_range\<close> and \<^verbatim>\<open>std::invalid_argument\<close>.
\<close>

datatype error =
  IndexOutOfBounds | PopEmpty | RemainderByZero | BadConversion | Out_of_range | Invalid_argument

subsection \<open>Delay\<close>

text \<open>
  \<^verbatim>\<open>struct Delay\<close>. The input field \<^verbatim>\<open>in\<close> is named \<open>inp\<close> here (\<open>in\<close> is a keyword); the
  \<^verbatim>\<open>std::deque<float> buffer\<close> is a list, its front at the head.
\<close>

record Delay =
  inp :: real
  delay :: real
  out :: real
  buffer :: "real list"

text \<open>
  \<^verbatim>\<open>Delay::Delay(float max_delay)\<close>: \<^verbatim>\<open>delay(max_delay)\<close> and a buffer of
  \<^verbatim>\<open>size_t(std::ceil(max_delay / dt)) + 1\<close> zeros. The declaration gives \<^verbatim>\<open>max_delay\<close> the
  default argument 1.
\<close>

definition Delay_ctor :: "real \<Rightarrow> error + Delay" where
  "Delay_ctor max_delay =
     (if \<lceil>max_delay / dt\<rceil> < 0 \<or> 2 ^ 64 \<le> \<lceil>max_delay / dt\<rceil> then Inl BadConversion
      else Inr \<lparr>inp = 0, delay = max_delay, out = 0,
                buffer = replicate (nat \<lceil>max_delay / dt\<rceil> + 1) 0\<rparr>)"

text \<open>\<^verbatim>\<open>buffer.pop_back(); buffer.push_front(in);\<close> on a buffer that is not empty.\<close>

definition Delay_shift :: "Delay \<Rightarrow> Delay" where
  "Delay_shift d = d\<lparr>buffer := inp d # butlast (buffer d)\<rparr>"

text \<open>
  The clamping of \<^verbatim>\<open>Delay::update\<close>: \<^verbatim>\<open>nsamples = buffer.size() - 1\<close>, then the two
  \<^verbatim>\<open>if\<close> statements that assign to the field \<^verbatim>\<open>delay\<close>.
\<close>

definition Delay_clamp :: "Delay \<Rightarrow> Delay" where
  "Delay_clamp d =
     (let nsamples = length (buffer d) - 1;
          d1 = (if delay d < 0 then d\<lparr>delay := 0\<rparr> else d);
          d2 = (if delay d1 > real nsamples * dt then d1\<lparr>delay := real nsamples * dt\<rparr> else d1)
      in d2)"

text \<open>\<^verbatim>\<open>buffer[i]\<close>: defined only for \<open>i < buffer.size()\<close>.\<close>

definition deque_at :: "real list \<Rightarrow> nat \<Rightarrow> error + real" where
  "deque_at b i = (if i < length b then Inr (b ! i) else Inl IndexOutOfBounds)"

text \<open>
  The position read by \<^verbatim>\<open>size_t pos = delay / dt\<close>. The conversion truncates; the delay
  is not negative once clamped, so the truncation is the floor.
\<close>

definition Delay_pos :: "Delay \<Rightarrow> nat" where
  "Delay_pos d = nat \<lfloor>delay d / dt\<rfloor>"

text \<open>
  The interpolation of \<^verbatim>\<open>Delay::update\<close>:
  \<^verbatim>\<open>buffer[pos] * (1 - fraction) + buffer[pos + 1] * fraction\<close>.
\<close>

definition Delay_interpolate :: "Delay \<Rightarrow> error + real" where
  "Delay_interpolate d =
     (let pos = Delay_pos d;
          fraction = delay d / dt - real pos
      in case deque_at (buffer d) pos of
           Inl e \<Rightarrow> Inl e
         | Inr a \<Rightarrow>
             (case deque_at (buffer d) (pos + 1) of
                Inl e \<Rightarrow> Inl e
              | Inr b \<Rightarrow> Inr (a * (1 - fraction) + b * fraction)))"

text \<open>
  \<^verbatim>\<open>Delay::update\<close>. A fault carries the state of the module at the moment of the fault:
  the assignments to \<^verbatim>\<open>buffer\<close> and \<^verbatim>\<open>delay\<close> come before the reads of the buffer.
\<close>

definition Delay_update :: "Delay \<Rightarrow> (error \<times> Delay) + Delay" where
  "Delay_update d =
     (if buffer d = [] then Inl (PopEmpty, d)
      else
        let d' = Delay_clamp (Delay_shift d) in
        case Delay_interpolate d' of
          Inl e \<Rightarrow> Inl (e, d')
        | Inr v \<Rightarrow> Inr (d'\<lparr>out := v\<rparr>))"

text \<open>The state of the module after a call of update, whether it returned or faulted.\<close>

definition Delay_final :: "(error \<times> Delay) + Delay \<Rightarrow> Delay" where
  "Delay_final r = (case r of Inl (e, d) \<Rightarrow> d | Inr d \<Rightarrow> d)"

subsection \<open>MIDI\<close>

text \<open>
  \<^verbatim>\<open>struct MIDI::Channel\<close>. The private \<^verbatim>\<open>std::bitset<128> notes\<close> is the field
  \<open>held_notes\<close> (\<open>notes\<close> is a keyword); \<^verbatim>\<open>float parameter[128]\<close> is a function of the
  index, every write to it checked against 128.
\<close>

record Channel =
  frequency :: real
  velocity :: real
  release_velocity :: real
  gate :: real
  aftertouch :: real
  pitch_bend :: real
  parameter :: "nat \<Rightarrow> real"
  held_notes :: "128 word"

text \<open>\<^verbatim>\<open>Channel channels[16]\<close>, indexed by the channel number, every access checked against 16.\<close>

record MIDI =
  channels :: "nat \<Rightarrow> Channel"

text \<open>
  A channel with every float zero and no bit set: the contents of a \<^verbatim>\<open>MIDI\<close> object of
  static storage duration, which is zero-initialised before its constructor runs.
\<close>

definition zeroed_channel :: Channel where
  "zeroed_channel =
     \<lparr>frequency = 0, velocity = 0, release_velocity = 0, gate = 0, aftertouch = 0,
      pitch_bend = 0, parameter = (\<lambda>i. 0), held_notes = 0\<rparr>"

definition zeroed_channels :: "nat \<Rightarrow> Channel" where
  "zeroed_channels k = zeroed_channel"

text \<open>
  \<^verbatim>\<open>MIDI::MIDI\<close> initialises no field of a channel: the floats are indeterminate, here the
  contents \<open>junk\<close>, and only the bitset is default-constructed, with no bit set.
\<close>

definition MIDI_ctor :: "(nat \<Rightarrow> Channel) \<Rightarrow> MIDI" where
  "MIDI_ctor junk = \<lparr>channels = (\<lambda>k. (junk k)\<lparr>held_notes := 0\<rparr>)\<rparr>"

text \<open>
  The fields of \<^verbatim>\<open>snd_seq_event_t\<close> that \<^verbatim>\<open>process_event\<close> reads, by event type:
  \<^verbatim>\<open>data.note\<close> has \<^verbatim>\<open>unsigned char\<close> channel, note and velocity; \<^verbatim>\<open>data.control\<close> has
  \<^verbatim>\<open>unsigned char\<close> channel, \<^verbatim>\<open>unsigned int\<close> param and \<^verbatim>\<open>signed int\<close> value. Every
  other event type is \<open>OTHER\<close>.
\<close>

datatype snd_seq_event =
    NOTEON "8 word" "8 word" "8 word"
  | NOTEOFF "8 word" "8 word" "8 word"
  | KEYPRESS "8 word" "8 word" "8 word"
  | CHANPRESS "8 word" int
  | PITCHBEND "8 word" int
  | CONTROLLER "8 word" "32 word" int
  | OTHER

text \<open>\<^verbatim>\<open>440.0f * std::exp2((note - 69.0f) / 12.0f)\<close>\<close>

definition note_to_frequency :: "8 word \<Rightarrow> real" where
  "note_to_frequency note = 440 * 2 powr ((real (unat note) - 69) / 12)"

text \<open>
  \<^verbatim>\<open>for (uint8_t note = 128; note--;)\<close>: the body runs for \<open>note\<close> = 127 down to 0 and
  returns at the first set bit; after the loop the function returns \<^verbatim>\<open>{}\<close>, which is 0.
  The first argument of the loop function is the value of \<open>note\<close> before the decrement.
\<close>

fun highest_note_loop :: "nat \<Rightarrow> 128 word \<Rightarrow> real" where
  "highest_note_loop 0 notes_bits = 0"
| "highest_note_loop (Suc note) notes_bits =
     (if bit notes_bits note then note_to_frequency (of_nat note)
      else highest_note_loop note notes_bits)"

definition highest_note_frequency :: "128 word \<Rightarrow> real" where
  "highest_note_frequency notes_bits = highest_note_loop 128 notes_bits"

text \<open>
  \<^verbatim>\<open>bitset::set(pos)\<close> and \<^verbatim>\<open>bitset::reset(pos)\<close> throw \<^verbatim>\<open>std::out_of_range\<close> when
  \<open>pos\<close> is not below 128; a note number is an \<^verbatim>\<open>unsigned char\<close> and can be up to 255.
\<close>

definition bitset_set :: "128 word \<Rightarrow> 8 word \<Rightarrow> error + 128 word" where
  "bitset_set b pos = (if unat pos < 128 then Inr (set_bit (unat pos) b) else Inl Out_of_range)"

definition bitset_reset :: "128 word \<Rightarrow> 8 word \<Rightarrow> error + 128 word" where
  "bitset_reset b pos = (if unat pos < 128 then Inr (unset_bit (unat pos) b) else Inl Out_of_range)"

text \<open>
  The body that \<^verbatim>\<open>process_event\<close> has twice, under \<^verbatim>\<open>SND_SEQ_EVENT_NOTEOFF\<close> and in the
  \<^verbatim>\<open>else\<close> branch of \<^verbatim>\<open>SND_SEQ_EVENT_NOTEON\<close> (velocity 0): reset the note; when no
  note is left, copy the velocity to the release velocity and clear the gate, otherwise
  select the highest note left.
\<close>

definition release_note :: "Channel \<Rightarrow> 8 word \<Rightarrow> error + Channel" where
  "release_note ch note =
     (case bitset_reset (held_notes ch) note of
        Inl e \<Rightarrow> Inl e
      | Inr b \<Rightarrow>
          (let ch1 = ch\<lparr>held_notes := b\<rparr> in
           if held_notes ch1 = 0
           then Inr (ch1\<lparr>release_velocity := velocity ch1, gate := 0\<rparr>)
           else Inr (ch1\<lparr>frequency := highest_note_frequency (held_notes ch1)\<rparr>)))"

text \<open>The case \<^verbatim>\<open>SND_SEQ_EVENT_NOTEON\<close>.\<close>

definition press_note :: "Channel \<Rightarrow> 8 word \<Rightarrow> 8 word \<Rightarrow> error + Channel" where
  "press_note ch note vel =
     (if vel \<noteq> 0 then
        (let ch1 = (if held_notes ch = 0 then ch\<lparr>velocity := real (unat vel) / 127\<rparr> else ch) in
         case bitset_set (held_notes ch1) note of
           Inl e \<Rightarrow> Inl e
         | Inr b \<Rightarrow>
             (let ch2 = ch1\<lparr>held_notes := b\<rparr> in
              Inr (ch2\<lparr>frequency := highest_note_frequency (held_notes ch2), gate := 1\<rparr>)))
      else release_note ch note)"

text \<open>
  The case \<^verbatim>\<open>SND_SEQ_EVENT_KEYPRESS\<close>: \<^verbatim>\<open>auto frequency = event->data.note.note;\<close> and
  \<^verbatim>\<open>if (ch.frequency == frequency)\<close>, the note number converted to \<^verbatim>\<open>float\<close> for the
  comparison.
\<close>

definition key_pressure :: "Channel \<Rightarrow> 8 word \<Rightarrow> 8 word \<Rightarrow> Channel" where
  "key_pressure ch note vel =
     (let frequency' = note in
      if frequency ch = real (unat frequency')
      then ch\<lparr>aftertouch := real (unat vel) / 127\<rparr>
      else ch)"

text \<open>\<^verbatim>\<open>auto &ch = channels[c]\<close> followed by the case's body \<open>f\<close> on that channel.\<close>

definition on_channel :: "MIDI \<Rightarrow> 8 word \<Rightarrow> (Channel \<Rightarrow> error + Channel) \<Rightarrow> error + MIDI" where
  "on_channel m c f =
     (if unat c < 16 then
        (case f (channels m (unat c)) of
           Inl e \<Rightarrow> Inl e
         | Inr ch \<Rightarrow> Inr (m\<lparr>channels := (channels m)(unat c := ch)\<rparr>))
      else Inl IndexOutOfBounds)"

text \<open>\<^verbatim>\<open>MIDI::process_event\<close>. The dot it writes to \<^verbatim>\<open>std::cerr\<close> is left out.\<close>

definition process_event :: "MIDI \<Rightarrow> snd_seq_event \<Rightarrow> error + MIDI" where
  "process_event m event =
     (case event of
        NOTEON c note vel \<Rightarrow> on_channel m c (\<lambda>ch. press_note ch note vel)
      | NOTEOFF c note vel \<Rightarrow> on_channel m c (\<lambda>ch. release_note ch note)
      | KEYPRESS c note vel \<Rightarrow> on_channel m c (\<lambda>ch. Inr (key_pressure ch note vel))
      | CHANPRESS c val \<Rightarrow> on_channel m c (\<lambda>ch. Inr (ch\<lparr>aftertouch := real_of_int val / 127\<rparr>))
      | PITCHBEND c val \<Rightarrow> on_channel m c (\<lambda>ch. Inr (ch\<lparr>pitch_bend := real_of_int val / 4096\<rparr>))
      | CONTROLLER c param val \<Rightarrow>
          on_channel m c (\<lambda>ch.
            if unat param < 128
            then Inr (ch\<lparr>parameter := (parameter ch)(unat param := real_of_int val / 127)\<rparr>)
            else Inl IndexOutOfBounds)
      | OTHER \<Rightarrow> Inr m)"

text \<open>
  The events that \<^verbatim>\<open>MIDI::update\<close> drains from the queue, processed in order; the first
  fault ends the run.
\<close>

fun process_events :: "MIDI \<Rightarrow> snd_seq_event list \<Rightarrow> error + MIDI" where
  "process_events m [] = Inr m"
| "process_events m (e # es) =
     (case process_event m e of Inl x \<Rightarrow> Inl x | Inr m' \<Rightarrow> process_events m' es)"

text \<open>Channel \<open>k\<close> after a run of events, when the run did not fault.\<close>

definition channel_after :: "MIDI \<Rightarrow> snd_seq_event list \<Rightarrow> nat \<Rightarrow> Channel option" where
  "channel_after m es k =
     (case process_events m es of Inl x \<Rightarrow> None | Inr m' \<Rightarrow> Some (channels m' k))"

text \<open>
  The rule of the specification for the field \<open>velocity\<close>: it is captured, as the event's
  velocity over 127, at a note-on with nonzero velocity on the channel when no note was
  held there, and at no other event.
\<close>

definition captured_velocity :: "MIDI \<Rightarrow> snd_seq_event \<Rightarrow> nat \<Rightarrow> real option" where
  "captured_velocity m event k =
     (case event of
        NOTEON c note vel \<Rightarrow>
          if unat c = k \<and> vel \<noteq> 0 \<and> held_notes (channels m k) = 0
          then Some (real (unat vel) / 127) else None
      | _ \<Rightarrow> None)"

subsection \<open>Sequencer\<close>

text \<open>
  \<^verbatim>\<open>struct Sequencer\<close>. The private \<^verbatim>\<open>std::size_t index\<close> is a natural number below
  \<open>2 ^ 64\<close>, its wrap-around written out.
\<close>

record Sequencer =
  clock_in :: real
  frequencies :: "real list"
  frequency_out :: real
  gate_out :: real
  index :: nat

text \<open>The static table \<^verbatim>\<open>base_notes\<close> of the constructor, a \<^verbatim>\<open>std::map\<close> read with \<^verbatim>\<open>at\<close>.\<close>

definition base_notes :: "(string \<times> int) list" where
  "base_notes =
     [(''Cb'', - 1), (''C'', 0), (''C#'', 1),
      (''Db'', 1), (''D'', 2), (''D#'', 3),
      (''Eb'', 3), (''E'', 4), (''E#'', 5),
      (''Fb'', 4), (''F'', 5), (''F#'', 6),
      (''Gb'', 6), (''G'', 7), (''G#'', 8),
      (''Ab'', 8), (''A'', 9), (''A#'', 10),
      (''Bb'', 10), (''B'', 11), (''B#'', 12)]"

definition is_digit :: "char \<Rightarrow> bool" where
  "is_digit ch = (ch \<in> set ''0123456789'')"

text \<open>
  \<^verbatim>\<open>note.find_first_of("0123456789")\<close>: the position of the first digit, \<open>None\<close> for
  \<^verbatim>\<open>npos\<close>.
\<close>

fun find_first_digit :: "string \<Rightarrow> nat option" where
  "find_first_digit [] = None"
| "find_first_digit (ch # rest) =
     (if is_digit ch then Some 0 else map_option Suc (find_first_digit rest))"

text \<open>
  \<^verbatim>\<open>std::stoi\<close> on a string that starts with a digit, as every string the constructor
  passes to it does: the value of the longest prefix of digits, \<^verbatim>\<open>std::out_of_range\<close>
  when it is above \<^verbatim>\<open>INT_MAX\<close>. With no digit in front there is no conversion.
\<close>

definition stoi :: "string \<Rightarrow> error + int" where
  "stoi str =
     (let digits = takeWhile is_digit str;
          val = foldl (\<lambda>acc ch. 10 * acc + (int (of_char ch) - 48)) 0 digits
      in if digits = [] then Inl Invalid_argument
         else if val > 2147483647 then Inl Out_of_range
         else Inr val)"

text \<open>
  The body of the constructor's loop for one note name. Without a digit, \<^verbatim>\<open>octave_pos\<close>
  is \<^verbatim>\<open>npos\<close>: either \<^verbatim>\<open>base_notes.at\<close> or \<^verbatim>\<open>note.substr(npos)\<close> throws
  \<^verbatim>\<open>std::out_of_range\<close>. The frequency is
  \<^verbatim>\<open>440.0f * std::exp2((base_note - 9) / 12.0f + octave - 4)\<close>.
\<close>

definition note_name_frequency :: "string \<Rightarrow> error + real" where
  "note_name_frequency note =
     (case find_first_digit note of
        None \<Rightarrow> Inl Out_of_range
      | Some octave_pos \<Rightarrow>
          (case map_of base_notes (take octave_pos note) of
             None \<Rightarrow> Inl Out_of_range
           | Some base_note \<Rightarrow>
               (case stoi (drop octave_pos note) of
                  Inl e \<Rightarrow> Inl e
                | Inr octave \<Rightarrow>
                    Inr (440 * 2 powr ((real_of_int base_note - 9) / 12
                                        + real_of_int octave - 4)))))"

text \<open>The loop over the initializer list, \<^verbatim>\<open>push_back\<close> for each note in order.\<close>

fun note_frequencies :: "string list \<Rightarrow> error + real list" where
  "note_frequencies [] = Inr []"
| "note_frequencies (note # rest) =
     (case note_name_frequency note of
        Inl e \<Rightarrow> Inl e
      | Inr f \<Rightarrow>
          (case note_frequencies rest of
             Inl e \<Rightarrow> Inl e
           | Inr fs \<Rightarrow> Inr (f # fs)))"

text \<open>
  \<^verbatim>\<open>Sequencer::Sequencer\<close>. The members \<^verbatim>\<open>frequency_out\<close> and \<^verbatim>\<open>gate_out\<close> have no
  initialiser: their first values are indeterminate, here the arguments \<open>f0\<close> and \<open>g0\<close>.
  \<^verbatim>\<open>index = frequencies.size() - 1\<close> is computed in \<^verbatim>\<open>size_t\<close>.
\<close>

definition Sequencer_ctor :: "string list \<Rightarrow> real \<Rightarrow> real \<Rightarrow> error + Sequencer" where
  "Sequencer_ctor note_names f0 g0 =
     (case note_frequencies note_names of
        Inl e \<Rightarrow> Inl e
      | Inr fs \<Rightarrow>
          Inr \<lparr>clock_in = 0, frequencies = fs, frequency_out = f0, gate_out = g0,
               index = (length fs + 2 ^ 64 - 1) mod 2 ^ 64\<rparr>)"

text \<open>
  \<^verbatim>\<open>Sequencer::update\<close>. \<^verbatim>\<open>!gate_out\<close> holds when the float is zero; \<^verbatim>\<open>index %=
  frequencies.size()\<close> is undefined for an empty vector, and so is \<^verbatim>\<open>frequencies[index]\<close>
  beyond its size; \<^verbatim>\<open>gate_out = clock_in > 0\<close> stores 1 or 0.
\<close>

definition Sequencer_update :: "Sequencer \<Rightarrow> error + Sequencer" where
  "Sequencer_update s =
     (if clock_in s > 0 \<and> gate_out s = 0 \<and> frequencies s = [] then Inl RemainderByZero
      else
        let s1 = (if clock_in s > 0 \<and> gate_out s = 0
                  then s\<lparr>index := ((index s + 1) mod 2 ^ 64) mod length (frequencies s)\<rparr>
                  else s)
        in if index s1 < length (frequencies s1)
           then Inr (s1\<lparr>frequency_out := frequencies s1 ! index s1,
                        gate_out := (if clock_in s1 > 0 then 1 else 0)\<rparr>)
           else Inl IndexOutOfBounds)"

text \<open>One update for each value of the clock input, in order.\<close>

fun Sequencer_run :: "Sequencer \<Rightarrow> real list \<Rightarrow> error + Sequencer" where
  "Sequencer_run s [] = Inr s"
| "Sequencer_run s (c # cs) =
     (case Sequencer_update (s\<lparr>clock_in := c\<rparr>) of
        Inl e \<Rightarrow> Inl e
      | Inr s' \<Rightarrow> Sequencer_run s' cs)"

text \<open>
  The rising edges of a clock sequence, in the words of the specification: the ticks at
  which the clock input is above 0 while the cleaned gate of the tick before was 0. The
  first argument is the cleaned gate before the first tick.
\<close>

fun rising_edges :: "real \<Rightarrow> real list \<Rightarrow> nat" where
  "rising_edges g [] = 0"
| "rising_edges g (c # cs) =
     (if c > 0 \<and> g = 0 then 1 else 0) + rising_edges (if c > 0 then 1 else 0) cs"

text \<open>The sequencer after a run of clock values, when no update faulted.\<close>

definition Sequencer_after :: "Sequencer \<Rightarrow> real list \<Rightarrow> Sequencer option" where
  "Sequencer_after s cs = (case Sequencer_run s cs of Inl e \<Rightarrow> None | Inr s' \<Rightarrow> Some s')"

subsection \<open>Ports, Wire and the audio callback\<close>

text \<open>
  A \<^verbatim>\<open>Wire\<close> holds references to floats that are members of other modules, so the
  modules that are wired together live in one store: a port is the address of a
  \<^verbatim>\<open>float\<close> member, and the world is the contents of all ports together with the two
  accumulators \<^verbatim>\<open>Audio::left\<close> and \<^verbatim>\<open>Audio::right\<close>. The virtual \<^verbatim>\<open>update()\<close> of a
  registered module is a function on the world.
\<close>

type_synonym port = nat

record world =
  ports :: "port \<Rightarrow> real"
  audio_left :: real
  audio_right :: real

type_synonym module = "world \<Rightarrow> world"

text \<open>The ports of objects of static storage duration before any write: every float is 0.\<close>

definition zero_ports :: "port \<Rightarrow> real" where
  "zero_ports p = 0"

text \<open>\<^verbatim>\<open>Wire::update\<close>: \<^verbatim>\<open>to = from;\<close>\<close>

definition Wire_update :: "port \<Rightarrow> port \<Rightarrow> module" where
  "Wire_update from_port to_port w = w\<lparr>ports := (ports w)(to_port := ports w from_port)\<rparr>"

text \<open>\<^verbatim>\<open>Speaker::update\<close>: \<^verbatim>\<open>audio.left += left_in; audio.right += right_in;\<close>\<close>

definition Speaker_update :: "port \<Rightarrow> port \<Rightarrow> module" where
  "Speaker_update left_in right_in w =
     w\<lparr>audio_left := audio_left w + ports w left_in,
       audio_right := audio_right w + ports w right_in\<rparr>"

text \<open>\<^verbatim>\<open>VCA::update\<close>: \<^verbatim>\<open>audio_out = audio_in * amplitude;\<close>\<close>

definition VCA_update :: "port \<Rightarrow> port \<Rightarrow> port \<Rightarrow> module" where
  "VCA_update audio_in amplitude audio_out w =
     w\<lparr>ports := (ports w)(audio_out := ports w audio_in * ports w amplitude)\<rparr>"

text \<open>\<^verbatim>\<open>LinearSlew::update\<close>, on the ports of its members \<^verbatim>\<open>in\<close>, \<^verbatim>\<open>rate\<close> and \<^verbatim>\<open>out\<close>.\<close>

definition LinearSlew_update :: "port \<Rightarrow> port \<Rightarrow> port \<Rightarrow> module" where
  "LinearSlew_update in_port rate out_port w =
     (let delta = ports w in_port - ports w out_port;
          delta = (if delta > ports w rate * dt then ports w rate * dt
                   else if delta < - ports w rate * dt then - ports w rate * dt
                   else delta)
      in w\<lparr>ports := (ports w)(out_port := ports w out_port + delta)\<rparr>)"

text \<open>
  The registry after the modules of a list have been constructed in that order, each
  constructor appending its module.
\<close>

definition registered :: "'m list \<Rightarrow> 'm registry" where
  "registered ms = fold Module_ctor ms []"

text \<open>
  The body of the sample loop of \<^verbatim>\<open>Audio::callback\<close>: reset the accumulators, call
  \<^verbatim>\<open>update()\<close> on every registered module in the order of the registry, and write the two
  accumulators, scaled by 0.1, to the stream.
\<close>

definition reset_accumulators :: "world \<Rightarrow> world" where
  "reset_accumulators w = w\<lparr>audio_left := 0, audio_right := 0\<rparr>"

definition update_modules :: "module registry \<Rightarrow> world \<Rightarrow> world" where
  "update_modules modules w = fold (\<lambda>m w'. m w') modules w"

definition tick :: "module registry \<Rightarrow> world \<Rightarrow> world" where
  "tick modules w = update_modules modules (reset_accumulators w)"

definition callback_sample :: "module registry \<Rightarrow> world \<Rightarrow> world \<times> real list" where
  "callback_sample modules w =
     (let w' = tick modules w in (w', [audio_left w' * 0.1, audio_right w' * 0.1]))"

text \<open>
  \<^verbatim>\<open>Audio::callback\<close>: the loop runs \<^verbatim>\<open>len / sizeof ptr\<close> times; \<open>sizeof_ptr\<close> is the size
  of a pointer on the platform. The result is the world after the block and the samples
  written to the stream.
\<close>

fun callback_loop :: "module registry \<Rightarrow> nat \<Rightarrow> world \<Rightarrow> world \<times> real list" where
  "callback_loop modules 0 w = (w, [])"
| "callback_loop modules (Suc n) w =
     (let (w1, frame) = callback_sample modules w;
          (w2, rest) = callback_loop modules n w1
      in (w2, frame @ rest))"

definition callback :: "nat \<Rightarrow> module registry \<Rightarrow> nat \<Rightarrow> world \<Rightarrow> world \<times> real list" where
  "callback sizeof_ptr modules len w = callback_loop modules (len div sizeof_ptr) w"

text \<open>
  What the module at position \<open>i\<close> of the registry observes in the tick that starts from
  the world \<open>w\<close>: the world in which its update is called, after the updates of the
  modules before it. And what it leaves: the world when its update has returned.
\<close>

definition world_seen_by :: "module registry \<Rightarrow> nat \<Rightarrow> world \<Rightarrow> world" where
  "world_seen_by modules i w = update_modules (take i modules) (reset_accumulators w)"

definition world_left_by :: "module registry \<Rightarrow> nat \<Rightarrow> world \<Rightarrow> world" where
  "world_left_by modules i w = update_modules (take (Suc i) modules) (reset_accumulators w)"

section \<open>Theorems\<close>

subsection \<open>Registry\<close>

text \<open>
  C1 (the code at the failing input). The claim is that after a module's destructor has
  run the module occurs zero times in the registry. In the code the destructor appends
  the pointer a second time: a module constructed into the empty registry and then
  destroyed occurs twice in the registry, which is \<open>[m, m]\<close>, and the scheduler's loop
  over that registry calls the update of the destroyed module twice in every tick.
\<close>

theorem Module_dtor_appends_again:
  "Module_dtor m (Module_ctor m []) = [m, m] \<and>
   count_list (Module_dtor m (Module_ctor m [])) m = 2 \<and>
   update_modules (Module_dtor u (Module_ctor u [])) w = u (u w)"
  by (simp add: Module_dtor_def Module_ctor_def update_modules_def)

subsection \<open>VCO\<close>

lemma frac_minus_one: "frac (x - 1) = frac (x::real)"
  using frac_add_of_int_right [of x "- 1"] by simp

lemma VCO_wrapped_phase_frac:
  "VCO_wrapped_phase v = frac (VCO_phase v + VCO.frequency v * dt)"
proof -
  have "sawtooth_out v * 0.5 - 0.5 + VCO.frequency v * dt = (VCO_phase v + VCO.frequency v * dt) - 1"
    by (simp add: VCO_phase_def field_simps)
  then have "VCO_wrapped_phase v = frac ((VCO_phase v + VCO.frequency v * dt) - 1)"
    by (simp only: VCO_wrapped_phase_def Let_def frac_def)
  then show ?thesis by (simp only: frac_minus_one)
qed

lemma VCO_wrapped_phase_range: "0 \<le> VCO_wrapped_phase v" "VCO_wrapped_phase v < 1"
  by (simp_all add: VCO_wrapped_phase_frac frac_lt_1)

lemma VCO_phase_update: "VCO_phase (VCO_update v) = VCO_wrapped_phase v"
  by (simp add: VCO_phase_def VCO_update_def Let_def)

lemma VCO_frequency_update: "VCO.frequency (VCO_update v) = VCO.frequency v"
  by (simp add: VCO_update_def Let_def)

lemma VCO_frequency_funpow: "VCO.frequency ((VCO_update ^^ N) v) = VCO.frequency v"
  by (induction N) (simp_all add: VCO_frequency_update)

lemma VCO_phase_funpow:
  "VCO_phase ((VCO_update ^^ N) (VCO_ctor f)) = frac (real N * f * dt)"
proof (induction N)
  case 0
  show ?case by (simp add: VCO_phase_def VCO_ctor_def)
next
  case (Suc N)
  have fr: "VCO.frequency ((VCO_update ^^ N) (VCO_ctor f)) = f"
    by (simp add: VCO_frequency_funpow VCO_ctor_def)
  have "VCO_phase ((VCO_update ^^ Suc N) (VCO_ctor f)) =
        frac (frac (real N * f * dt) + f * dt)"
    by (simp add: VCO_phase_update VCO_wrapped_phase_frac Suc.IH fr del: frac_add_simps)
  also have "\<dots> = frac (real N * f * dt + f * dt)"
    by (simp only: frac_add_simps)
  also have "real N * f * dt + f * dt = real (Suc N) * f * dt"
    by (simp add: algebra_simps)
  finally show ?case .
qed

text \<open>
  The oscillator in exact arithmetic. Started from the constructor's state
  (\<open>sawtooth_out = - 1\<close>, which stands for phase 0) and run with a constant frequency
  \<open>f\<close>, the phase read back from the sawtooth output after \<open>N\<close> updates is the fractional
  part of \<open>N * f * dt\<close>. Each update replaces the phase by the fractional part of the old
  phase plus \<open>frequency * dt\<close>: the code recovers \<open>sawtooth_out * 0.5 - 0.5\<close> (the phase
  less one whole cycle), adds \<open>frequency * dt\<close> and subtracts the floor.
\<close>

lemma VCO_exact_phase_after_N_updates:
  "sawtooth_out (VCO_ctor f) = - 1 \<and> VCO_phase (VCO_ctor f) = 0 \<and>
   VCO_phase ((VCO_update ^^ N) (VCO_ctor f)) = frac (real N * f * dt) \<and>
   VCO.frequency ((VCO_update ^^ N) (VCO_ctor f)) = f \<and>
   VCO_wrapped_phase v = frac (sawtooth_out v * 0.5 - 0.5 + VCO.frequency v * dt) \<and>
   VCO_phase (VCO_update v) = frac (VCO_phase v + VCO.frequency v * dt) \<and>
   0 \<le> VCO_phase (VCO_update v) \<and> VCO_phase (VCO_update v) < 1 \<and>
   sawtooth_out (VCO_update v) = 2 * VCO_wrapped_phase v - 1 \<and>
   VCO_phase (VCO_update v) = VCO_wrapped_phase v \<and>
   VCO.frequency (VCO_update v) = VCO.frequency v"
proof -
  have "VCO_wrapped_phase v = frac (sawtooth_out v * 0.5 - 0.5 + VCO.frequency v * dt)"
    by (simp only: VCO_wrapped_phase_def Let_def frac_def)
  moreover have "sawtooth_out (VCO_update v) = 2 * VCO_wrapped_phase v - 1"
    by (simp add: VCO_update_def Let_def)
  moreover have "VCO.frequency ((VCO_update ^^ N) (VCO_ctor f)) = f"
    by (simp add: VCO_frequency_funpow VCO_ctor_def)
  moreover have "sawtooth_out (VCO_ctor f) = - 1" "VCO_phase (VCO_ctor f) = 0"
    by (simp_all add: VCO_ctor_def VCO_phase_def)
  moreover have "VCO_phase (VCO_update v) = frac (VCO_phase v + VCO.frequency v * dt)"
    by (simp only: VCO_phase_update VCO_wrapped_phase_frac)
  moreover have "0 \<le> VCO_phase (VCO_update v)" "VCO_phase (VCO_update v) < 1"
    by (simp_all only: VCO_phase_update VCO_wrapped_phase_range)
  ultimately show ?thesis
    by (simp only: VCO_phase_funpow VCO_phase_update VCO_frequency_update simp_thms)
qed

subsection \<open>VCO in binary32\<close>

lemma rint_cases: "rint y = of_int \<lfloor>y\<rfloor> \<or> rint y = of_int \<lfloor>y\<rfloor> + 1"
  by (simp add: rint_def Let_def)

lemma rint_err: "\<bar>rint y - y\<bar> \<le> 1 / 2"
proof -
  have "of_int \<lfloor>y\<rfloor> \<le> y" "y < of_int \<lfloor>y\<rfloor> + 1" by linarith+
  then show ?thesis
    by (auto simp: rint_def Let_def abs_le_iff split: if_splits)
qed

lemma rint_of_int: "rint (of_int n) = of_int n"
  by (simp add: rint_def Let_def)

lemma rint_ge_int: "of_int n \<le> y \<Longrightarrow> of_int n \<le> rint y"
proof -
  assume "of_int n \<le> y"
  then have "n \<le> \<lfloor>y\<rfloor>" by (simp add: le_floor_iff)
  then have "(of_int n :: real) \<le> of_int \<lfloor>y\<rfloor>" by simp
  then show ?thesis using rint_cases [of y] by auto
qed

lemma rint_le_int: "y \<le> of_int n \<Longrightarrow> rint y \<le> of_int n"
proof (cases "y = of_int n")
  case True
  then show ?thesis by (simp add: rint_of_int)
next
  case False
  assume "y \<le> of_int n"
  with False have "y < of_int n" by simp
  then have "\<lfloor>y\<rfloor> < n" by (simp add: floor_less_iff)
  then have "\<lfloor>y\<rfloor> + 1 \<le> n" by simp
  then have "(of_int \<lfloor>y\<rfloor> :: real) + 1 \<le> of_int n" by linarith
  then show ?thesis using rint_cases [of y] by auto
qed

lemma rint_near_even:
  assumes "even n" and "0 \<le> d" and "d \<le> 1 / 2"
  shows "rint (of_int n + d) = of_int n"
proof -
  have "\<lfloor>of_int n + d\<rfloor> = n" using assms by (simp add: floor_eq_iff)
  then show ?thesis using assms by (simp add: rint_def Let_def)
qed

lemma ulp32_pos: "0 < ulp32 x"
  by (simp add: ulp32_def)

lemma f32_0: "f32 0 = 0"
  by (simp add: f32_def rint_def)

lemma f32_err: "\<bar>f32 x - x\<bar> \<le> ulp32 x / 2"
proof -
  have "f32 x - x = (rint (x / ulp32 x) - x / ulp32 x) * ulp32 x"
    using ulp32_pos [of x] by (simp add: f32_def field_simps)
  then have "\<bar>f32 x - x\<bar> = \<bar>rint (x / ulp32 x) - x / ulp32 x\<bar> * ulp32 x"
    using ulp32_pos [of x] by (simp add: abs_mult)
  also have "\<dots> \<le> (1 / 2) * ulp32 x"
    using ulp32_pos [of x] by (intro mult_right_mono rint_err) simp
  finally show ?thesis by simp
qed


lemma ulp32_binade:
  assumes "2 powr real_of_int e \<le> \<bar>x\<bar>" and "\<bar>x\<bar> < 2 powr (real_of_int e + 1)" and "- 126 \<le> e"
  shows "ulp32 x = 2 powr (real_of_int e - 23)"
proof -
  have "(0::real) < 2 powr real_of_int e" by simp
  then have pos: "0 < \<bar>x\<bar>"
    using assms(1) by linarith
  then have x0: "x \<noteq> 0" by auto
  have "real_of_int e \<le> log 2 \<bar>x\<bar>"
    using assms(1) pos by (simp add: le_log_iff)
  moreover have "log 2 \<bar>x\<bar> < real_of_int e + 1"
    using assms(2) pos by (simp add: log_less_iff)
  ultimately have "\<lfloor>log 2 \<bar>x\<bar>\<rfloor> = e" by (simp add: floor_eq_iff)
  then show ?thesis using assms(3) x0 by (simp add: ulp32_def max_def)
qed

lemma ulp32_le:
  assumes "\<bar>x\<bar> < 2 powr real_of_int k" and "- 125 \<le> k"
  shows "ulp32 x \<le> 2 powr (real_of_int k - 24)"
proof (cases "x = 0")
  case True
  have "(2::real) powr (- 149) \<le> 2 powr (real_of_int k - 24)"
    using assms(2) by (intro powr_mono) simp_all
  then show ?thesis using True by (simp add: ulp32_def)
next
  case False
  then have pos: "0 < \<bar>x\<bar>" by simp
  have "log 2 \<bar>x\<bar> < real_of_int k"
    using assms(1) pos by (simp add: log_less_iff)
  then have "\<lfloor>log 2 \<bar>x\<bar>\<rfloor> < k" by (simp add: floor_less_iff)
  then have "max \<lfloor>log 2 \<bar>x\<bar>\<rfloor> (- 126) \<le> k - 1" using assms(2) by simp
  then have "real_of_int (max \<lfloor>log 2 \<bar>x\<bar>\<rfloor> (- 126)) - 23 \<le> real_of_int k - 24"
    by linarith
  then have "(2::real) powr (real_of_int (max \<lfloor>log 2 \<bar>x\<bar>\<rfloor> (- 126)) - 23)
      \<le> 2 powr (real_of_int k - 24)"
    by (intro powr_mono) simp_all
  then show ?thesis using False by (simp add: ulp32_def)
qed


lemma ulp32_lt4: "\<bar>x\<bar> < 4 \<Longrightarrow> ulp32 x \<le> 2 powr (- 22)"
  using ulp32_le [of x 2] by simp

lemma f32_err_lt4: "\<bar>x\<bar> < 4 \<Longrightarrow> \<bar>f32 x - x\<bar> \<le> 2 powr (- 23)"
proof -
  assume "\<bar>x\<bar> < 4"
  then have "ulp32 x / 2 \<le> 2 powr (- 22) / 2" using ulp32_lt4 by simp
  also have "\<dots> = 2 powr (- 23)" by (simp add: powr_minus)
  finally show ?thesis using f32_err [of x] by linarith
qed

text \<open>Below 4 in size, the unit in the last place is 2 to a negative integer power, so
  every integer is a multiple of it.\<close>

lemma ulp32_inverse_int:
  assumes "\<bar>x\<bar> < 4"
  shows "\<exists>j::nat. ulp32 x = 1 / 2 ^ j"
proof -
  have "\<exists>i::int. i \<le> 0 \<and> ulp32 x = 2 powr real_of_int i"
  proof (cases "x = 0")
    case True
    have "ulp32 0 = 2 powr real_of_int (- 149)" by (simp add: ulp32_def)
    then show ?thesis using True by (intro exI [of _ "- 149"]) simp
  next
    case False
    then have pos: "0 < \<bar>x\<bar>" by simp
    have "log 2 \<bar>x\<bar> < 2"
      using assms pos by (simp add: log_less_iff)
    then have "\<lfloor>log 2 \<bar>x\<bar>\<rfloor> < 2" by (simp add: floor_less_iff)
    then have "max \<lfloor>log 2 \<bar>x\<bar>\<rfloor> (- 126) - 23 \<le> 0" by simp
    moreover have "ulp32 x = 2 powr real_of_int (max \<lfloor>log 2 \<bar>x\<bar>\<rfloor> (- 126) - 23)"
      using False by (simp add: ulp32_def)
    ultimately show ?thesis by blast
  qed
  then obtain i :: int where i: "i \<le> 0" "ulp32 x = 2 powr real_of_int i" by blast
  show ?thesis
  proof (cases "i = 0")
    case True
    then have "ulp32 x = 1 / 2 ^ 0" using i(2) by simp
    then show ?thesis by blast
  next
    case False
    then have "\<not> 0 \<le> i" using i(1) by simp
    then have "(2::real) powr real_of_int i = inverse (2 ^ nat (- i))"
      by (simp only: powr_real_of_int [of 2 i] if_False)
    then have "ulp32 x = 1 / 2 ^ nat (- i)"
      by (simp only: i(2) inverse_eq_divide)
    then show ?thesis by blast
  qed
qed

lemma f32_le_int:
  assumes "\<bar>x\<bar> < 4" and "x \<le> of_int n"
  shows "f32 x \<le> of_int n"
proof -
  obtain j :: nat where j: "ulp32 x = 1 / 2 ^ j"
    using ulp32_inverse_int [OF assms(1)] by blast
  have a: "x / ulp32 x = x * 2 ^ j" by (simp add: j)
  have b: "x * 2 ^ j \<le> of_int n * 2 ^ j"
    using assms(2) by (intro mult_right_mono) simp_all
  have c: "real_of_int (n * 2 ^ j) = of_int n * 2 ^ j" by simp
  have "x / ulp32 x \<le> real_of_int (n * 2 ^ j)"
    unfolding a c by (rule b)
  then have "rint (x / ulp32 x) \<le> real_of_int (n * 2 ^ j)"
    by (rule rint_le_int)
  then have "rint (x / ulp32 x) * ulp32 x \<le> real_of_int (n * 2 ^ j) * ulp32 x"
    using ulp32_pos [of x] by (intro mult_right_mono) simp_all
  also have "real_of_int (n * 2 ^ j) * ulp32 x = of_int n"
    unfolding c j by simp
  finally show ?thesis by (simp only: f32_def)
qed

lemma f32_ge_int:
  assumes "\<bar>x\<bar> < 4" and "of_int n \<le> x"
  shows "of_int n \<le> f32 x"
proof -
  obtain j :: nat where j: "ulp32 x = 1 / 2 ^ j"
    using ulp32_inverse_int [OF assms(1)] by blast
  have a: "x / ulp32 x = x * 2 ^ j" by (simp add: j)
  have b: "of_int n * 2 ^ j \<le> x * 2 ^ j"
    using assms(2) by (intro mult_right_mono) simp_all
  have c: "real_of_int (n * 2 ^ j) = of_int n * 2 ^ j" by simp
  have "real_of_int (n * 2 ^ j) \<le> x / ulp32 x"
    unfolding a c by (rule b)
  then have "real_of_int (n * 2 ^ j) \<le> rint (x / ulp32 x)"
    by (rule rint_ge_int)
  then have "real_of_int (n * 2 ^ j) * ulp32 x \<le> rint (x / ulp32 x) * ulp32 x"
    using ulp32_pos [of x] by (intro mult_right_mono) simp_all
  moreover have "real_of_int (n * 2 ^ j) * ulp32 x = of_int n"
    unfolding c j by simp
  ultimately show ?thesis by (simp only: f32_def)
qed

lemma eta_val: "(2::real) powr (- 23) = 1 / 8388608"
  by (simp add: powr_minus_divide)

lemma dt_f32_err: "\<bar>dt_f32 - dt\<bar> \<le> 2 powr (- 40)"
proof -
  have "ulp32 (1 / 48000) = 2 powr (real_of_int (- 16) - 23)"
    by (rule ulp32_binade) (simp_all add: powr_minus_divide)
  then have "ulp32 (1 / 48000) / 2 = 2 powr (- 40)"
    by (simp add: powr_minus_divide)
  then show ?thesis
    using f32_err [of "1 / 48000"] by (simp add: dt_f32_def dt_def)
qed

lemma VCO_f32_range:
  "0 \<le> VCO_wrapped_phase_f32 v" "VCO_wrapped_phase_f32 v \<le> 1"
  "- 1 \<le> sawtooth_out (VCO_update_f32 v)" "sawtooth_out (VCO_update_f32 v) \<le> 1"
proof -
  define a where "a = f32 (f32 (f32 (sawtooth_out v * 0.5) - 0.5) + f32 (VCO.frequency v * dt_f32))"
  define p where "p = f32 (a - of_int \<lfloor>a\<rfloor>)"
  have p_eq: "VCO_wrapped_phase_f32 v = p"
    by (simp add: VCO_wrapped_phase_f32_def Let_def p_def a_def)
  have w: "0 \<le> a - of_int \<lfloor>a\<rfloor>" "a - of_int \<lfloor>a\<rfloor> < 1" by linarith+
  then have w4: "\<bar>a - of_int \<lfloor>a\<rfloor>\<bar> < 4" by simp
  have p0: "0 \<le> p" using f32_ge_int [OF w4, of 0] w by (simp add: p_def)
  have p1: "p \<le> 1" using f32_le_int [OF w4, of 1] w by (simp add: p_def)
  show "0 \<le> VCO_wrapped_phase_f32 v" "VCO_wrapped_phase_f32 v \<le> 1"
    using p0 p1 by (simp_all add: p_eq)
  have t4: "\<bar>p * 2\<bar> < 4" using p0 p1 by simp
  have t0: "0 \<le> f32 (p * 2)" using f32_ge_int [OF t4, of 0] p0 by simp
  have t2: "f32 (p * 2) \<le> 2" using f32_le_int [OF t4, of 2] p1 by simp
  have s4: "\<bar>f32 (p * 2) - 1\<bar> < 4" using t0 t2 by simp
  have "- 1 \<le> f32 (f32 (p * 2) - 1)" using f32_ge_int [OF s4, of "- 1"] t0 by simp
  moreover have "f32 (f32 (p * 2) - 1) \<le> 1" using f32_le_int [OF s4, of 1] t2 by simp
  moreover have "sawtooth_out (VCO_update_f32 v) = f32 (f32 (p * 2) - 1)"
    by (simp add: VCO_update_f32_def Let_def p_eq)
  ultimately show "- 1 \<le> sawtooth_out (VCO_update_f32 v)" "sawtooth_out (VCO_update_f32 v) \<le> 1"
    by simp_all
qed

lemma f32_err_lt4': "\<bar>x\<bar> < 4 \<Longrightarrow> \<bar>f32 x - x\<bar> \<le> 1 / 8388608"
  using f32_err_lt4 [of x] by (simp only: eta_val)

lemma VCO_f32_step_error:
  assumes s: "- 1 \<le> sawtooth_out v" "sawtooth_out v \<le> 1"
    and f: "\<bar>VCO.frequency v\<bar> \<le> 48000"
  shows "\<exists>k::int. \<bar>VCO_phase (VCO_update_f32 v) - (VCO_phase v + VCO.frequency v * dt) - of_int k\<bar>
           \<le> 7 * 2 powr (- 23)"
proof -
  define s0 where "s0 = sawtooth_out v"
  define h where "h = s0 * 0.5"
  define fd32 where "fd32 = VCO.frequency v * dt_f32"
  define fd where "fd = VCO.frequency v * dt"
  define t1 where "t1 = f32 h"
  define r where "r = f32 (t1 - 0.5)"
  define d where "d = f32 fd32"
  define a where "a = f32 (r + d)"
  define fl where "fl = real_of_int \<lfloor>a\<rfloor>"
  define p where "p = f32 (a - fl)"
  define t2 where "t2 = f32 (p * 2)"
  define s1 where "s1 = f32 (t2 - 1)"
  have hb: "- 1 / 2 \<le> h" "h \<le> 1 / 2" using s by (simp_all add: h_def s0_def)
  then have "\<bar>h\<bar> < 4" by linarith
  then have e1: "\<bar>t1 - h\<bar> \<le> 1 / 8388608"
    unfolding t1_def by (rule f32_err_lt4')
  have "\<bar>t1 - 0.5\<bar> < 4" using e1 hb by linarith
  then have e2: "\<bar>r - (t1 - 0.5)\<bar> \<le> 1 / 8388608"
    unfolding r_def by (rule f32_err_lt4')
  have "\<bar>dt_f32 - dt\<bar> \<le> 1 / 1099511627776"
    using dt_f32_err by (simp add: powr_minus_divide)
  then have "\<bar>VCO.frequency v\<bar> * \<bar>dt_f32 - dt\<bar> \<le> 48000 * (1 / 1099511627776)"
    using f by (intro mult_mono) simp_all
  moreover have "fd32 - fd = VCO.frequency v * (dt_f32 - dt)"
    by (simp add: fd32_def fd_def right_diff_distrib)
  ultimately have "\<bar>fd32 - fd\<bar> \<le> 48000 * (1 / 1099511627776)"
    by (simp only: abs_mult)
  then have edt: "\<bar>fd32 - fd\<bar> \<le> 1 / 8388608" by linarith
  have "\<bar>fd\<bar> = \<bar>VCO.frequency v\<bar> / 48000" by (simp add: fd_def dt_def)
  then have fdb: "\<bar>fd\<bar> \<le> 1" using f by simp
  have "\<bar>fd32\<bar> < 4" using edt fdb by linarith
  then have ed: "\<bar>d - fd32\<bar> \<le> 1 / 8388608"
    unfolding d_def by (rule f32_err_lt4')
  have "\<bar>r + d\<bar> < 4" using e1 e2 ed edt fdb hb by linarith
  then have e3: "\<bar>a - (r + d)\<bar> \<le> 1 / 8388608"
    unfolding a_def by (rule f32_err_lt4')
  have w: "0 \<le> a - fl" "a - fl < 1" unfolding fl_def by linarith+
  then have "\<bar>a - fl\<bar> < 4" by linarith
  then have e4: "\<bar>p - (a - fl)\<bar> \<le> 1 / 8388608"
    unfolding p_def by (rule f32_err_lt4')
  have p_eq: "VCO_wrapped_phase_f32 v = p"
    by (simp add: VCO_wrapped_phase_f32_def Let_def p_def a_def r_def t1_def d_def fd32_def
        s0_def fl_def h_def)
  have pb: "0 \<le> p" "p \<le> 1" using VCO_f32_range(1,2) [of v] by (simp_all only: p_eq)
  then have "\<bar>p * 2\<bar> < 4" by linarith
  then have e5: "\<bar>t2 - p * 2\<bar> \<le> 1 / 8388608"
    unfolding t2_def by (rule f32_err_lt4')
  have "\<bar>t2 - 1\<bar> < 4" using e5 pb by linarith
  then have e6: "\<bar>s1 - (t2 - 1)\<bar> \<le> 1 / 8388608"
    unfolding s1_def by (rule f32_err_lt4')
  have s1_eq: "sawtooth_out (VCO_update_f32 v) = s1"
    by (simp add: VCO_update_f32_def Let_def p_eq s1_def t2_def)
  have hs: "h = s0 / 2" by (simp add: h_def)
  note b = e1 [unfolded abs_le_iff] e2 [unfolded abs_le_iff] edt [unfolded abs_le_iff]
    ed [unfolded abs_le_iff] e3 [unfolded abs_le_iff] e4 [unfolded abs_le_iff]
  have dec: "(s1 + 1) / 2 - ((s0 + 1) / 2 + fd) - (- 1 - fl) =
      (t1 - h) + (r - (t1 - 0.5)) + (fd32 - fd) + (d - fd32) + (a - (r + d)) + (p - (a - fl))
      + (t2 - p * 2) / 2 + (s1 - (t2 - 1)) / 2"
    unfolding hs by (simp add: field_simps)
  have c: "(t2 - p * 2) / 2 \<le> 1 / 8388608 / 2" "- ((t2 - p * 2) / 2) \<le> 1 / 8388608 / 2"
    "(s1 - (t2 - 1)) / 2 \<le> 1 / 8388608 / 2" "- ((s1 - (t2 - 1)) / 2) \<le> 1 / 8388608 / 2"
    using e5 [unfolded abs_le_iff] e6 [unfolded abs_le_iff] by simp_all
  have "(s1 + 1) / 2 - ((s0 + 1) / 2 + fd) - (- 1 - fl) \<le> 7 / 8388608"
    using dec b c by linarith
  moreover have "- ((s1 + 1) / 2 - ((s0 + 1) / 2 + fd) - (- 1 - fl)) \<le> 7 / 8388608"
    using dec b c by linarith
  ultimately have "\<bar>(s1 + 1) / 2 - ((s0 + 1) / 2 + fd) - (- 1 - fl)\<bar> \<le> 7 / 8388608"
    by (simp only: abs_le_iff)
  then have "\<bar>VCO_phase (VCO_update_f32 v) - (VCO_phase v + VCO.frequency v * dt)
      - real_of_int (- 1 - \<lfloor>a\<rfloor>)\<bar> \<le> 7 * 2 powr (- 23)"
    by (simp add: VCO_phase_def s1_eq s0_def fd_def fl_def eta_val)
  then show ?thesis by blast
qed

lemma VCO_f32_funpow_inv:
  "VCO.frequency ((VCO_update_f32 ^^ N) v) = VCO.frequency v"
  by (induction N) (simp_all add: VCO_update_f32_def Let_def)

lemma VCO_f32_funpow_range:
  assumes "- 1 \<le> sawtooth_out v" "sawtooth_out v \<le> 1"
  shows "- 1 \<le> sawtooth_out ((VCO_update_f32 ^^ N) v) \<and> sawtooth_out ((VCO_update_f32 ^^ N) v) \<le> 1"
  using assms by (cases N) (simp_all add: VCO_f32_range)

lemma VCO_f32_funpow_error:
  assumes "\<bar>f\<bar> \<le> 48000"
  shows "\<exists>k::int. \<bar>VCO_phase ((VCO_update_f32 ^^ N) (VCO_ctor f)) - real N * f * dt - of_int k\<bar>
           \<le> real N * (7 * 2 powr (- 23))"
proof (induction N)
  case 0
  show ?case by (intro exI [of _ 0]) (simp add: VCO_phase_def VCO_ctor_def)
next
  case (Suc N)
  define v where "v = (VCO_update_f32 ^^ N) (VCO_ctor f)"
  have fr: "VCO.frequency v = f"
    by (simp add: v_def VCO_f32_funpow_inv VCO_ctor_def)
  have rg: "- 1 \<le> sawtooth_out v" "sawtooth_out v \<le> 1"
    using VCO_f32_funpow_range [of "VCO_ctor f" N] by (simp_all add: v_def VCO_ctor_def)
  from Suc.IH obtain k :: int where
    k: "\<bar>VCO_phase v - real N * f * dt - of_int k\<bar> \<le> real N * (7 * 2 powr (- 23))"
    unfolding v_def by blast
  from VCO_f32_step_error [OF rg] assms obtain k' :: int where
    k': "\<bar>VCO_phase (VCO_update_f32 v) - (VCO_phase v + f * dt) - of_int k'\<bar> \<le> 7 * 2 powr (- 23)"
    unfolding fr by blast
  have "\<bar>VCO_phase (VCO_update_f32 v) - real (Suc N) * f * dt - of_int (k + k')\<bar>
      \<le> real (Suc N) * (7 * 2 powr (- 23))"
    using k k' by (simp add: abs_le_iff algebra_simps)
  then show ?case
    unfolding v_def by (intro exI [of _ "k + k'"]) simp
qed

lemma f32_exact:
  assumes "2 powr real_of_int e \<le> \<bar>x\<bar>" and "\<bar>x\<bar> < 2 powr (real_of_int e + 1)" and "- 126 \<le> e"
    and "x / 2 powr (real_of_int e - 23) = of_int m"
  shows "f32 x = x"
proof -
  have u: "ulp32 x = 2 powr (real_of_int e - 23)" using assms(1-3) by (rule ulp32_binade)
  have "rint (x / ulp32 x) = x / ulp32 x"
    unfolding u assms(4) by (rule rint_of_int)
  then show ?thesis using ulp32_pos [of x] by (simp add: f32_def)
qed

lemma f32_minus_half: "f32 (- (1 / 2)) = - (1 / 2)"
  by (rule f32_exact [where e = "- 1" and m = "- 8388608"]) (simp_all add: powr_minus_divide)

lemma f32_minus_one: "f32 (- 1) = - 1"
  by (rule f32_exact [where e = 0 and m = "- 8388608"]) (simp_all add: powr_minus_divide)

lemma f32_binade_bounds:
  assumes "2 powr real_of_int e \<le> x" and "x < 2 powr (real_of_int e + 1)" and "- 126 \<le> e"
  shows "2 powr real_of_int e \<le> f32 x" and "f32 x \<le> 2 powr (real_of_int e + 1)"
proof -
  have "(0::real) < 2 powr real_of_int e" by simp
  then have xpos: "0 < x" using assms(1) by linarith
  have u: "ulp32 x = 2 powr (real_of_int e - 23)"
    using assms xpos by (intro ulp32_binade) simp_all
  have lo: "2 powr real_of_int e = of_int 8388608 * ulp32 x"
    unfolding u by (simp add: powr_diff)
  have hi: "2 powr (real_of_int e + 1) = of_int 16777216 * ulp32 x"
    unfolding u by (simp add: powr_diff powr_add)
  have "of_int 8388608 \<le> x / ulp32 x"
    using assms(1) ulp32_pos [of x] unfolding lo by (simp add: field_simps)
  then have "of_int 8388608 \<le> rint (x / ulp32 x)" by (rule rint_ge_int)
  then have "of_int 8388608 * ulp32 x \<le> rint (x / ulp32 x) * ulp32 x"
    using ulp32_pos [of x] by (intro mult_right_mono) simp_all
  then show "2 powr real_of_int e \<le> f32 x" by (simp only: lo f32_def)
  have "x / ulp32 x \<le> of_int 16777216"
    using assms(2) ulp32_pos [of x] unfolding hi by (simp add: field_simps)
  then have "rint (x / ulp32 x) \<le> of_int 16777216" by (rule rint_le_int)
  then have "rint (x / ulp32 x) * ulp32 x \<le> of_int 16777216 * ulp32 x"
    using ulp32_pos [of x] by (intro mult_right_mono) simp_all
  then show "f32 x \<le> 2 powr (real_of_int e + 1)" by (simp only: hi f32_def)
qed

lemma f32_near_minus_one:
  assumes "0 \<le> d" and "d \<le> 2 powr (- 25)"
  shows "f32 (- 1 + d) = - 1"
proof (cases "d = 0")
  case True
  then show ?thesis by (simp add: f32_minus_one)
next
  case False
  have d25: "d \<le> 1 / 33554432" using assms(2) by (simp add: powr_minus_divide)
  have abs: "\<bar>- 1 + d\<bar> = 1 - d" using assms(1) d25 by simp
  have u: "ulp32 (- 1 + d) = 2 powr (real_of_int (- 1) - 23)"
    using False assms(1) d25 by (intro ulp32_binade) (simp_all add: abs powr_minus_divide)
  then have u': "ulp32 (- 1 + d) = 1 / 16777216" by (simp add: powr_minus_divide)
  have q: "(- 1 + d) / (1 / 16777216) = of_int (- 16777216) + d * 16777216"
    by (simp add: algebra_simps)
  have r: "rint (of_int (- 16777216) + d * 16777216) = of_int (- 16777216)"
    using assms(1) d25 by (intro rint_near_even) simp_all
  have "f32 (- 1 + d) = of_int (- 16777216) * (1 / 16777216)"
    by (simp only: f32_def q r u')
  then show ?thesis by simp
qed

lemma f32_milli_bounds: "1 / 1001 \<le> f32 (1 / 1000)" "f32 (1 / 1000) \<le> 1 / 999"
proof -
  have "ulp32 (1 / 1000) = 2 powr (real_of_int (- 10) - 23)"
    by (rule ulp32_binade) (simp_all add: powr_minus_divide)
  then have "ulp32 (1 / 1000) / 2 = 1 / 17179869184"
    by (simp add: powr_minus_divide)
  then have "\<bar>f32 (1 / 1000) - 1 / 1000\<bar> \<le> 1 / 17179869184"
    using f32_err [of "1 / 1000"] by simp
  then show "1 / 1001 \<le> f32 (1 / 1000)" "f32 (1 / 1000) \<le> 1 / 999"
    by linarith+
qed

lemma dt_f32_bounds: "1 / 48001 \<le> dt_f32" "dt_f32 \<le> 1 / 47999"
proof -
  have "\<bar>dt_f32 - 1 / 48000\<bar> \<le> 1 / 1099511627776"
    using dt_f32_err by (simp add: powr_minus_divide dt_def)
  then show "1 / 48001 \<le> dt_f32" "dt_f32 \<le> 1 / 47999"
    by linarith+
qed

lemma milli_step_bounds:
  "0 \<le> f32 (f32 (1 / 1000) * dt_f32)" "f32 (f32 (1 / 1000) * dt_f32) \<le> 2 powr (- 25)"
proof -
  let ?x = "f32 (1 / 1000) * dt_f32"
  have "(1 / 1001) * (1 / 48001) \<le> ?x"
    using f32_milli_bounds(1) dt_f32_bounds(1) by (intro mult_mono) simp_all
  then have lo: "2 powr real_of_int (- 26) \<le> ?x"
    by (simp add: powr_minus_divide)
  have "?x \<le> (1 / 999) * (1 / 47999)"
    using f32_milli_bounds dt_f32_bounds by (intro mult_mono) simp_all
  then have hi: "?x < 2 powr (real_of_int (- 26) + 1)"
    by (simp add: powr_minus_divide)
  have "2 powr real_of_int (- 26) \<le> f32 ?x"
    using lo hi by (rule f32_binade_bounds) simp
  moreover have "(0::real) < 2 powr real_of_int (- 26)" by (simp del: of_int_minus)
  ultimately show "0 \<le> f32 ?x" by linarith
  have "f32 ?x \<le> 2 powr (real_of_int (- 26) + 1)"
    using lo hi by (rule f32_binade_bounds) simp
  then show "f32 ?x \<le> 2 powr (- 25)" by simp
qed

lemma VCO_f32_milli_stuck:
  assumes "sawtooth_out v = - 1" and "VCO.frequency v = f32 (1 / 1000)"
  shows "sawtooth_out (VCO_update_f32 v) = - 1"
proof -
  have a: "f32 (- 1 + f32 (f32 (1 / 1000) * dt_f32)) = - 1"
    using milli_step_bounds by (rule f32_near_minus_one)
  then have a': "f32 (f32 (f32 (1 / 1000) * dt_f32) - 1) = - 1"
    by simp
  have "VCO_wrapped_phase_f32 v = 0"
    unfolding VCO_wrapped_phase_f32_def Let_def assms
    by (simp add: f32_minus_half f32_minus_one a' f32_0)
  then show ?thesis
    by (simp add: VCO_update_f32_def Let_def f32_0 f32_minus_one)
qed

lemma VCO_f32_milli_funpow:
  "sawtooth_out ((VCO_update_f32 ^^ N) (VCO_ctor (f32 (1 / 1000)))) = - 1"
proof (induction N)
  case 0
  show ?case by (simp add: VCO_ctor_def)
next
  case (Suc N)
  have "VCO.frequency ((VCO_update_f32 ^^ N) (VCO_ctor (f32 (1 / 1000)))) = f32 (1 / 1000)"
    by (simp add: VCO_f32_funpow_inv VCO_ctor_def)
  with Suc.IH show ?case by (simp add: VCO_f32_milli_stuck)
qed

text \<open>
  C7 (counterexample). A VCO constructed with the frequency \<open>0.001f\<close> never leaves its
  initial state: \<open>- 1 + frequency * dt\<close> is less than half a unit in the last place away
  from \<open>- 1\<close> and rounds back to \<open>- 1\<close>, so the wrapped phase is 0 and the sawtooth
  output is \<open>- 1\<close> again. After 24,000,000 updates the phase read back from the sawtooth
  output is 0, while \<open>(N * f * dt) mod 1\<close> lies between 0.49 and 0.51: half a cycle
  apart, the largest distance two phases can have.
\<close>

theorem VCO_f32_phase_stuck_counterexample:
  "VCO_phase ((VCO_update_f32 ^^ 24000000) (VCO_ctor (f32 (1 / 1000)))) = 0 \<and>
   49 / 100 < frac (24000000 * f32 (1 / 1000) * dt) \<and>
   frac (24000000 * f32 (1 / 1000) * dt) < 51 / 100"
proof -
  have p: "VCO_phase ((VCO_update_f32 ^^ 24000000) (VCO_ctor (f32 (1 / 1000)))) = 0"
    unfolding VCO_phase_def VCO_f32_milli_funpow by simp
  have e: "24000000 * f32 (1 / 1000) * dt = 500 * f32 (1 / 1000)"
    by (simp add: dt_def)
  have b: "49 / 100 < 500 * f32 (1 / 1000)" "500 * f32 (1 / 1000) < 51 / 100"
    using f32_milli_bounds by linarith+
  then have "\<lfloor>500 * f32 (1 / 1000)\<rfloor> = 0"
    by (simp add: floor_eq_iff)
  then have "frac (500 * f32 (1 / 1000)) = 500 * f32 (1 / 1000)"
    by (simp add: frac_def)
  with b p show ?thesis by (simp only: e simp_thms)
qed

text \<open>
  C7 (amended). With every operation rounded to binary32, for every constant frequency
  \<open>f\<close> with \<open>\<bar>f\<bar> \<le> 48000\<close>, zero and negative ones included, and from the constructor's
  state (\<open>sawtooth_out = - 1\<close>, phase 0): the phase read back from the sawtooth output
  after \<open>N\<close> updates differs from \<open>N * f * dt\<close> by an integer and an error of at most
  \<open>7 * 2 powr (- 23)\<close> for each update, \<open>N * 7 * 2 powr (- 23)\<close> in all; the bound grows
  with \<open>N\<close>, and the counterexample reaches half a cycle. Each update, from any state,
  produces a wrapped phase in \<open>[0, 1]\<close>, writes \<open>sawtooth_out = 2 p - 1\<close> rounded, which
  lies in \<open>[- 1, 1]\<close>, and leaves the frequency unchanged; from a sawtooth output in
  \<open>[- 1, 1]\<close> the new phase differs from the old phase plus \<open>frequency * dt\<close> by an
  integer and at most \<open>7 * 2 powr (- 23)\<close>.
\<close>

theorem VCO_f32_phase_after_N_updates:
  assumes "\<bar>f\<bar> \<le> 48000"
  shows "(\<exists>k::int. \<bar>VCO_phase ((VCO_update_f32 ^^ N) (VCO_ctor f)) - real N * f * dt - of_int k\<bar>
            \<le> real N * (7 * 2 powr (- 23))) \<and>
         VCO.frequency ((VCO_update_f32 ^^ N) (VCO_ctor f)) = f \<and>
         sawtooth_out (VCO_ctor f) = - 1 \<and> VCO_phase (VCO_ctor f) = 0 \<and>
         0 \<le> VCO_wrapped_phase_f32 v \<and> VCO_wrapped_phase_f32 v \<le> 1 \<and>
         sawtooth_out (VCO_update_f32 v) = f32 (f32 (VCO_wrapped_phase_f32 v * 2) - 1) \<and>
         - 1 \<le> sawtooth_out (VCO_update_f32 v) \<and> sawtooth_out (VCO_update_f32 v) \<le> 1 \<and>
         VCO.frequency (VCO_update_f32 v) = VCO.frequency v \<and>
         (- 1 \<le> sawtooth_out v \<and> sawtooth_out v \<le> 1 \<and> \<bar>VCO.frequency v\<bar> \<le> 48000 \<longrightarrow>
            (\<exists>k::int. \<bar>VCO_phase (VCO_update_f32 v) - (VCO_phase v + VCO.frequency v * dt) - of_int k\<bar>
               \<le> 7 * 2 powr (- 23)))"
proof -
  have 1: "\<exists>k::int. \<bar>VCO_phase ((VCO_update_f32 ^^ N) (VCO_ctor f)) - real N * f * dt - of_int k\<bar>
            \<le> real N * (7 * 2 powr (- 23))"
    using assms by (rule VCO_f32_funpow_error)
  have 2: "VCO.frequency ((VCO_update_f32 ^^ N) (VCO_ctor f)) = f"
    by (simp add: VCO_f32_funpow_inv VCO_ctor_def)
  have 3: "sawtooth_out (VCO_ctor f) = - 1" "VCO_phase (VCO_ctor f) = 0"
    by (simp_all add: VCO_ctor_def VCO_phase_def)
  have 4: "sawtooth_out (VCO_update_f32 v) = f32 (f32 (VCO_wrapped_phase_f32 v * 2) - 1)"
    "VCO.frequency (VCO_update_f32 v) = VCO.frequency v"
    by (simp_all add: VCO_update_f32_def Let_def)
  have 5: "- 1 \<le> sawtooth_out v \<and> sawtooth_out v \<le> 1 \<and> \<bar>VCO.frequency v\<bar> \<le> 48000 \<longrightarrow>
            (\<exists>k::int. \<bar>VCO_phase (VCO_update_f32 v) - (VCO_phase v + VCO.frequency v * dt) - of_int k\<bar>
               \<le> 7 * 2 powr (- 23))"
    using VCO_f32_step_error [of v] by blast
  from 1 2 3 4 5 VCO_f32_range [of v] show ?thesis
    by (intro conjI) assumption+
qed

text \<open>The theorem at 440 Hz after 48000 updates, one second of output.\<close>

theorem VCO_f32_phase_after_N_updates_witness:
  "\<exists>k::int. \<bar>VCO_phase ((VCO_update_f32 ^^ 48000) (VCO_ctor 440)) - real 48000 * 440 * dt - of_int k\<bar>
      \<le> real 48000 * (7 * 2 powr (- 23))"
proof -
  have h: "\<bar>440::real\<bar> \<le> 48000" by simp
  from VCO_f32_phase_after_N_updates [OF h, of 48000] show ?thesis
    by (rule conjunct1)
qed

subsection \<open>VCO: the square output\<close>




subsection \<open>Envelope\<close>

lemma scale_le_one:
  fixes a k :: real
  assumes "a \<le> 1" "0 < k" "k \<le> 1"
  shows "a * k \<le> 1"
proof (cases "0 \<le> a")
  case True
  then have "a * k \<le> a * 1" using assms by (intro mult_left_mono) auto
  then show ?thesis using assms by simp
next
  case False
  then have "a * k \<le> 0" using assms by (simp add: mult_le_0_iff)
  then show ?thesis by simp
qed

lemma exp2_decay_factor:
  fixes t :: real
  assumes "0 < t"
  shows "0 < 2 powr (- dt / t)" "2 powr (- dt / t) \<le> 1"
proof -
  show "0 < 2 powr (- dt / t)" by simp
  have "- dt / t \<le> 0" using assms by (simp add: dt_def)
  then have "2 powr (- dt / t) \<le> (2::real) powr 0" by (intro powr_mono) simp_all
  then show "2 powr (- dt / t) \<le> 1" by simp
qed

lemma Envelope_action_ATTACK_le_1:
  "state e = ATTACK \<Longrightarrow> amplitude_out (Envelope_action e) \<le> 1"
  by (simp add: Envelope_action_def Let_def)

lemma Envelope_action_le_1:
  assumes "0 < decay e" "0 < release e" "amplitude_out e \<le> 1"
  shows "amplitude_out (Envelope_action e) \<le> 1"
proof (cases "state e")
  case ATTACK
  then show ?thesis by (rule Envelope_action_ATTACK_le_1)
next
  case DECAY
  then show ?thesis
    using scale_le_one [OF assms(3) exp2_decay_factor [OF assms(1)]]
    by (simp add: Envelope_action_def)
next
  case RELEASE
  then show ?thesis
    using scale_le_one [OF assms(3) exp2_decay_factor [OF assms(2)]]
    by (simp add: Envelope_action_def)
qed

lemma Envelope_transition_frame:
  "amplitude_out (Envelope_transition e) = amplitude_out e"
  "decay (Envelope_transition e) = decay e"
  "release (Envelope_transition e) = release e"
  "attack (Envelope_transition e) = attack e"
  by (simp_all add: Envelope_transition_def)

text \<open>
  C9. For an envelope with \<open>attack > 0\<close>, \<open>decay > 0\<close> and \<open>release > 0\<close>, one update
  keeps \<open>amplitude_out \<le> 1\<close>, whatever the gate input and the state are; and when the
  update runs the ATTACK branch (the state after the transition rule is ATTACK), the
  amplitude after it is at most 1 whatever it was before.
\<close>

theorem Envelope_update_amplitude_le_1:
  assumes "0 < attack e" and "0 < decay e" and "0 < release e"
  shows "(amplitude_out e \<le> 1 \<longrightarrow> amplitude_out (Envelope_update e) \<le> 1) \<and>
         (state (Envelope_transition e) = ATTACK \<longrightarrow> amplitude_out (Envelope_update e) \<le> 1)"
proof (intro conjI impI)
  assume "amplitude_out e \<le> 1"
  then show "amplitude_out (Envelope_update e) \<le> 1"
    unfolding Envelope_update_def
    using assms by (intro Envelope_action_le_1) (simp_all add: Envelope_transition_frame)
next
  assume "state (Envelope_transition e) = ATTACK"
  then show "amplitude_out (Envelope_update e) \<le> 1"
    unfolding Envelope_update_def by (rule Envelope_action_ATTACK_le_1)
qed

text \<open>
  The theorem at an envelope whose gate goes high in the RELEASE state (the update runs
  the ATTACK branch), and at one in the DECAY state at amplitude 1 whose gate goes low.
\<close>

theorem Envelope_update_amplitude_le_1_witness:
  "amplitude_out (Envelope_update
      \<lparr>gate_in = 1, attack = 1 / 100, decay = 1, release = 1 / 10,
       amplitude_out = 0, state = RELEASE\<rparr>) \<le> 1 \<and>
   state (Envelope_transition
      \<lparr>gate_in = 1, attack = 1 / 100, decay = 1, release = 1 / 10,
       amplitude_out = 0, state = RELEASE\<rparr>) = ATTACK \<and>
   amplitude_out (Envelope_update
      \<lparr>gate_in = 0, attack = 1 / 100, decay = 1, release = 1 / 10,
       amplitude_out = 1, state = DECAY\<rparr>) \<le> 1"
  using Envelope_update_amplitude_le_1
      [of "\<lparr>gate_in = 1, attack = 1 / 100, decay = 1, release = 1 / 10,
             amplitude_out = 0, state = RELEASE\<rparr>"]
    Envelope_update_amplitude_le_1
      [of "\<lparr>gate_in = 0, attack = 1 / 100, decay = 1, release = 1 / 10,
             amplitude_out = 1, state = DECAY\<rparr>"]
  by (simp add: Envelope_transition_def)

subsection \<open>Delay\<close>

lemma Delay_clamp_range:
  "0 \<le> delay (Delay_clamp d)"
  "delay (Delay_clamp d) \<le> real (length (buffer d) - 1) * dt"
  "delay (Delay_clamp d) = min (max (delay d) 0) (real (length (buffer d) - 1) * dt)"
  "inp (Delay_clamp d) = inp d"
  "buffer (Delay_clamp d) = buffer d"
  by (auto simp: Delay_clamp_def Let_def dt_def)

lemma Delay_shift_frame:
  "delay (Delay_shift d) = delay d"
  "inp (Delay_shift d) = inp d"
  "buffer d \<noteq> [] \<Longrightarrow> length (buffer (Delay_shift d)) = length (buffer d)"
  by (simp_all add: Delay_shift_def)

lemma Delay_final_update:
  "buffer d \<noteq> [] \<Longrightarrow>
   delay (Delay_final (Delay_update d)) = delay (Delay_clamp (Delay_shift d)) \<and>
   inp (Delay_final (Delay_update d)) = inp d \<and>
   length (buffer (Delay_final (Delay_update d))) = length (buffer d)"
  by (simp add: Delay_update_def Delay_final_def Let_def Delay_clamp_range Delay_shift_frame
      split: sum.splits)

lemma Delay_clamp_at_max:
  assumes "real (length (buffer d) - 1) * dt \<le> delay d"
  shows "Delay_clamp d = d\<lparr>delay := real (length (buffer d) - 1) * dt\<rparr>"
proof -
  have "0 \<le> real (length (buffer d) - 1) * dt" by (simp add: dt_def)
  with assms have "\<not> delay d < 0" by linarith
  then show ?thesis using assms
    by (cases "real (length (buffer d) - 1) * dt < delay d") (simp_all add: Delay_clamp_def Let_def)
qed

lemma Delay_pos_at_max: "Delay_pos (d\<lparr>delay := real n * dt\<rparr>) = n"
  by (simp add: Delay_pos_def dt_def)

lemma Delay_update_faults_at_max:
  assumes "buffer d \<noteq> []" and "real (length (buffer d) - 1) * dt \<le> delay d"
  shows "Delay_update d =
           Inl (IndexOutOfBounds,
                d\<lparr>buffer := inp d # butlast (buffer d),
                   delay := real (length (buffer d) - 1) * dt\<rparr>)"
proof -
  define n where "n = length (buffer d) - 1"
  define s where "s = (Delay_shift d)\<lparr>delay := real n * dt\<rparr>"
  have len: "length (buffer (Delay_shift d)) = length (buffer d)"
    using assms(1) by (simp add: Delay_shift_def)
  have "real (length (buffer (Delay_shift d)) - 1) * dt \<le> delay (Delay_shift d)"
    using assms(2) by (simp only: len) (simp add: Delay_shift_def)
  then have c: "Delay_clamp (Delay_shift d) = s"
    by (simp only: Delay_clamp_at_max len s_def n_def)
  have p: "Delay_pos s = n"
    unfolding s_def by (rule Delay_pos_at_max)
  have b: "length (buffer s) = Suc n"
    using assms(1) len by (simp add: s_def n_def)
  have "Delay_interpolate s = Inl IndexOutOfBounds"
    by (simp add: Delay_interpolate_def Let_def p deque_at_def b)
  then have "Delay_update d = Inl (IndexOutOfBounds, s)"
    using assms(1) by (simp add: Delay_update_def Let_def c)
  then show ?thesis
    by (simp add: s_def n_def Delay_shift_def)
qed

lemma Delay_update_returns_below_max:
  assumes "buffer d \<noteq> []" and "max (delay d) 0 < real (length (buffer d) - 1) * dt"
  shows "Delay_pos (Delay_clamp (Delay_shift d)) + 1 < length (buffer d) \<and>
         (\<exists>v. Delay_update d = Inr ((Delay_clamp (Delay_shift d))\<lparr>out := v\<rparr>))"
proof -
  define s where "s = Delay_clamp (Delay_shift d)"
  define n where "n = length (buffer d) - 1"
  have len: "length (buffer s) = Suc n"
    using assms(1) by (simp add: s_def n_def Delay_clamp_range Delay_shift_def)
  have a2: "max (delay d) 0 < real n * dt"
    using assms(2) unfolding n_def .
  have "length (buffer (Delay_shift d)) - 1 = n"
    using assms(1) by (simp add: n_def Delay_shift_def)
  then have "delay s = min (max (delay d) 0) (real n * dt)"
    using Delay_clamp_range(3) [of "Delay_shift d"]
    by (simp only: s_def Delay_shift_frame)
  with a2 have "delay s < real n * dt" "0 \<le> delay s"
    by (simp_all add: min_def)
  then have "delay s / dt < real n" "0 \<le> delay s / dt"
    by (simp_all add: dt_def)
  then have pos: "Delay_pos s < n"
    unfolding Delay_pos_def by (simp add: floor_less_iff nat_less_iff)
  then have "\<exists>v. Delay_interpolate s = Inr v"
    by (simp add: Delay_interpolate_def Let_def deque_at_def len)
  then have "\<exists>v. Delay_update d = Inr (s\<lparr>out := v\<rparr>)"
    using assms(1) by (auto simp: Delay_update_def Let_def s_def)
  with pos len show ?thesis
    using assms(1) by (simp add: s_def n_def)
qed

text \<open>
  C4 (the code at the failing input). The claim is that for every clamped delay, the
  maximum \<open>(capacity - 1) * dt\<close> included, both indices \<open>pos\<close> and \<open>pos + 1\<close> are within the
  buffer. A default-constructed \<^verbatim>\<open>Delay\<close> (\<^verbatim>\<open>max_delay = 1\<close>) has a buffer of 48001 samples
  and \<open>delay = 1 = 48000 * dt\<close>, the maximum. Its first update computes \<open>pos = 48000\<close> and
  reads \<open>buffer[48001]\<close>, one past the last element: the update faults. The lemma
  \<open>Delay_update_faults_at_max\<close> shows the same for every delay at or above the maximum,
  and \<open>Delay_update_returns_below_max\<close> that below the maximum both reads are in bounds.
\<close>

theorem Delay_update_index_past_end:
  "Delay_ctor 1 = Inr \<lparr>inp = 0, delay = 1, out = 0, buffer = replicate 48001 0\<rparr> \<and>
   Delay_update \<lparr>inp = 0, delay = 1, out = 0, buffer = replicate 48001 0\<rparr> =
     Inl (IndexOutOfBounds, \<lparr>inp = 0, delay = 1, out = 0, buffer = replicate 48001 0\<rparr>) \<and>
   Delay_pos \<lparr>inp = 0, delay = 1, out = 0, buffer = replicate 48001 0\<rparr> + 1 = 48001 \<and>
   length (buffer \<lparr>inp = 0, delay = 1, out = 0, buffer = replicate 48001 0\<rparr>) = 48001"
proof -
  have b: "0 # butlast (replicate 48001 (0::real)) = replicate 48001 0"
    by (simp add: butlast_conv_take flip: replicate_Suc)
  have "Delay_update \<lparr>inp = 0, delay = 1, out = 0, buffer = replicate 48001 0\<rparr> =
     Inl (IndexOutOfBounds, \<lparr>inp = 0, delay = 1, out = 0, buffer = replicate 48001 0\<rparr>)"
    using Delay_update_faults_at_max [of "\<lparr>inp = 0, delay = 1, out = 0, buffer = replicate 48001 0\<rparr>"]
    by (simp add: dt_def b)
  then show ?thesis
    by (simp add: Delay_ctor_def Delay_pos_def dt_def)
qed

text \<open>
  C10. For a module whose buffer is not empty (every constructed \<^verbatim>\<open>Delay\<close>), after an
  update the field \<open>delay\<close> lies in \<open>[0, (buffer.size() - 1) * dt]\<close> and is the clamp of
  the requested delay into that range, while the field \<open>inp\<close> and the size of the buffer
  are as before the call. This is the state of the module after the call whether the
  interpolation that follows the clamping returned or faulted.
\<close>

theorem Delay_update_clamps_delay:
  assumes "buffer d \<noteq> []"
  shows "0 \<le> delay (Delay_final (Delay_update d)) \<and>
         delay (Delay_final (Delay_update d)) \<le> real (length (buffer d) - 1) * dt \<and>
         delay (Delay_final (Delay_update d)) =
           min (max (delay d) 0) (real (length (buffer d) - 1) * dt) \<and>
         inp (Delay_final (Delay_update d)) = inp d \<and>
         length (buffer (Delay_final (Delay_update d))) = length (buffer d)"
proof -
  have len: "length (buffer (Delay_shift d)) = length (buffer d)"
    using assms by (rule Delay_shift_frame)
  have "delay (Delay_final (Delay_update d)) = delay (Delay_clamp (Delay_shift d))"
    using Delay_final_update [OF assms] by simp
  moreover have "0 \<le> delay (Delay_clamp (Delay_shift d))"
    by (rule Delay_clamp_range)
  moreover have "delay (Delay_clamp (Delay_shift d)) \<le> real (length (buffer d) - 1) * dt"
    using Delay_clamp_range(2) [of "Delay_shift d"] by (simp only: len)
  moreover have "delay (Delay_clamp (Delay_shift d)) =
      min (max (delay d) 0) (real (length (buffer d) - 1) * dt)"
    using Delay_clamp_range(3) [of "Delay_shift d"] by (simp only: len Delay_shift_frame)
  ultimately show ?thesis
    using Delay_final_update [OF assms] by simp
qed

text \<open>The theorem at a three-sample buffer and a requested delay of 5 seconds.\<close>

theorem Delay_update_clamps_delay_witness:
  "delay (Delay_final (Delay_update \<lparr>inp = 1 / 2, delay = 5, out = 0, buffer = [0, 0, 0]\<rparr>)) = 2 * dt \<and>
   inp (Delay_final (Delay_update \<lparr>inp = 1 / 2, delay = 5, out = 0, buffer = [0, 0, 0]\<rparr>)) = 1 / 2 \<and>
   length (buffer (Delay_final (Delay_update \<lparr>inp = 1 / 2, delay = 5, out = 0, buffer = [0, 0, 0]\<rparr>))) = 3"
  using Delay_update_clamps_delay [of "\<lparr>inp = 1 / 2, delay = 5, out = 0, buffer = [0, 0, 0]\<rparr>"]
  by (simp add: dt_def)

subsection \<open>MIDI\<close>

lemma highest_note_loop_found:
  assumes "bit b k" and "k < n" and "\<forall>j. k < j \<and> j < n \<longrightarrow> \<not> bit b j"
  shows "highest_note_loop n b = note_to_frequency (of_nat k)"
  using assms
proof (induction n)
  case 0
  then show ?case by simp
next
  case (Suc n)
  show ?case
  proof (cases "k = n")
    case True
    with Suc.prems show ?thesis by simp
  next
    case False
    with Suc.prems have "k < n" by simp
    moreover from Suc.prems \<open>k < n\<close> have "\<not> bit b n" by simp
    moreover from Suc.prems have "\<forall>j. k < j \<and> j < n \<longrightarrow> \<not> bit b j" by simp
    ultimately show ?thesis using Suc.IH Suc.prems(1) by simp
  qed
qed

lemma highest_note_frequency_eq:
  assumes "bit b k" and "k < 128" and "\<forall>j. k < j \<and> j < 128 \<longrightarrow> \<not> bit b j"
  shows "highest_note_frequency b = note_to_frequency (of_nat k)"
  unfolding highest_note_frequency_def using assms by (rule highest_note_loop_found)

lemma bit_set_bit_128: "n < 128 \<Longrightarrow> bit (set_bit n (b::128 word)) j \<longleftrightarrow> bit b j \<or> j = n"
  by (auto simp: bit_set_bit_iff dest: bit_imp_le_length)

lemma set_bit_128_nonzero: "n < 128 \<Longrightarrow> set_bit n (b::128 word) \<noteq> 0"
proof
  assume "n < 128" and "set_bit n b = 0"
  then have "bit (0::128 word) n" using bit_set_bit_128 [of n b n] by simp
  then show False by simp
qed

lemma unset_set_bit_same:
  assumes "\<not> bit b n"
  shows "unset_bit n (set_bit n (b::128 word)) = b"
proof (rule bit_eqI)
  fix j
  show "bit (unset_bit n (set_bit n b)) j = bit b j"
    using assms by (auto simp: bit_unset_bit_iff bit_set_bit_iff)
qed

lemma highest_note_frequency_top:
  assumes "unat n < 128" and "\<forall>j. unat n < j \<and> j < 128 \<longrightarrow> \<not> bit b j"
  shows "highest_note_frequency (set_bit (unat n) b) = note_to_frequency n"
  using highest_note_frequency_eq [of "set_bit (unat n) b" "unat n"] assms
  by (simp add: bit_set_bit_128)

lemma press_first:
  assumes "held_notes ch = 0" and "v \<noteq> 0" and "unat n < 128"
  shows "press_note ch n v =
     Inr (ch\<lparr>velocity := real (unat v) / 127, held_notes := set_bit (unat n) 0,
             Channel.frequency := note_to_frequency n, gate := 1\<rparr>)"
  using assms highest_note_frequency_top [of n 0]
  by (simp add: press_note_def bitset_set_def Let_def del: set_bit_of_0)

lemma press_higher:
  assumes "held_notes ch \<noteq> 0" and "v \<noteq> 0" and "unat n < 128"
    and "\<forall>j. unat n < j \<and> j < 128 \<longrightarrow> \<not> bit (held_notes ch) j"
  shows "press_note ch n v =
     Inr (ch\<lparr>held_notes := set_bit (unat n) (held_notes ch),
             Channel.frequency := note_to_frequency n, gate := 1\<rparr>)"
  using assms highest_note_frequency_top [of n "held_notes ch"]
  by (simp add: press_note_def bitset_set_def Let_def del: set_bit_of_0)

lemma release_to_single:
  assumes "unat hi < 128" and "unat lo < unat hi" and "held_notes ch = set_bit (unat hi) (set_bit (unat lo) 0)"
  shows "release_note ch hi =
     Inr (ch\<lparr>held_notes := set_bit (unat lo) 0, Channel.frequency := note_to_frequency lo\<rparr>)"
proof -
  have "\<not> bit (set_bit (unat lo) (0::128 word)) (unat hi)"
    using assms by (simp add: bit_set_bit_128 del: set_bit_of_0)
  then have "unset_bit (unat hi) (held_notes ch) = set_bit (unat lo) 0"
    unfolding assms(3) by (rule unset_set_bit_same)
  moreover have "set_bit (unat lo) (0::128 word) \<noteq> 0"
    using assms by (intro set_bit_128_nonzero) simp
  moreover have "highest_note_frequency (set_bit (unat lo) 0) = note_to_frequency lo"
    using assms by (intro highest_note_frequency_top) simp_all
  ultimately show ?thesis
    using assms(1) by (simp add: release_note_def bitset_reset_def Let_def del: set_bit_of_0)
qed

lemma release_last:
  assumes "unat lo < 128" and "held_notes ch = set_bit (unat lo) 0"
  shows "release_note ch lo =
     Inr (ch\<lparr>held_notes := 0, release_velocity := velocity ch, gate := 0\<rparr>)"
proof -
  have "unset_bit (unat lo) (held_notes ch) = 0"
    unfolding assms(2) by (rule unset_set_bit_same) simp
  then show ?thesis
    using assms(1) by (simp add: release_note_def bitset_reset_def Let_def del: set_bit_of_0)
qed

lemma process_release:
  assumes "r = NOTEOFF c n rv \<or> r = NOTEON c n 0"
  shows "process_event m r = on_channel m c (\<lambda>ch. release_note ch n)"
  using assms by (auto simp: process_event_def press_note_def)

lemma two_note_scenario:
  fixes lo hi :: "8 word"
  assumes c: "unat c < 16" and v1: "v1 \<noteq> 0" and v2: "v2 \<noteq> 0"
    and lohi: "unat lo < unat hi" "unat hi < 128"
    and empty: "held_notes (channels m (unat c)) = 0"
    and rhi: "rhi = NOTEOFF c hi rv \<or> rhi = NOTEON c hi 0"
    and rlo: "rlo = NOTEOFF c lo rv' \<or> rlo = NOTEON c lo 0"
  defines "ch \<equiv> channels m (unat c)"
  defines "ch1 \<equiv> ch\<lparr>velocity := real (unat v1) / 127, held_notes := set_bit (unat lo) 0,
                     Channel.frequency := note_to_frequency lo, gate := 1\<rparr>"
  defines "ch2 \<equiv> ch1\<lparr>held_notes := set_bit (unat hi) (set_bit (unat lo) 0),
                     Channel.frequency := note_to_frequency hi, gate := 1\<rparr>"
  defines "ch3 \<equiv> ch2\<lparr>held_notes := set_bit (unat lo) 0, Channel.frequency := note_to_frequency lo\<rparr>"
  defines "ch4 \<equiv> ch3\<lparr>held_notes := 0, release_velocity := velocity ch3, gate := 0\<rparr>"
  shows "channel_after m [NOTEON c lo v1, NOTEON c hi v2] (unat c) = Some ch2"
    and "channel_after m [NOTEON c lo v1, NOTEON c hi v2, rhi] (unat c) = Some ch3"
    and "channel_after m [NOTEON c lo v1, NOTEON c hi v2, rhi, rlo] (unat c) = Some ch4"
proof -
  have lo: "unat lo < 128" using lohi by simp
  let ?m1 = "m\<lparr>channels := (channels m)(unat c := ch1)\<rparr>"
  let ?m2 = "m\<lparr>channels := (channels m)(unat c := ch2)\<rparr>"
  let ?m3 = "m\<lparr>channels := (channels m)(unat c := ch3)\<rparr>"
  let ?m4 = "m\<lparr>channels := (channels m)(unat c := ch4)\<rparr>"
  have "press_note ch lo v1 = Inr ch1"
    unfolding ch1_def using empty v1 lo by (intro press_first) (simp_all add: ch_def)
  then have s1: "process_event m (NOTEON c lo v1) = Inr ?m1"
    using c by (simp add: process_event_def on_channel_def ch_def)
  have h1: "held_notes ch1 = set_bit (unat lo) 0"
    by (simp add: ch1_def del: set_bit_of_0)
  have "held_notes ch1 \<noteq> 0"
    unfolding h1 using lo by (rule set_bit_128_nonzero)
  moreover have "\<forall>j. unat hi < j \<and> j < 128 \<longrightarrow> \<not> bit (held_notes ch1) j"
    unfolding h1 using lohi by (simp add: bit_set_bit_128 del: set_bit_of_0)
  ultimately have "press_note ch1 hi v2 = Inr ch2"
    using press_higher [of ch1 v2 hi] v2 lohi
    by (simp add: ch2_def h1 del: set_bit_of_0)
  then have s2: "process_event ?m1 (NOTEON c hi v2) = Inr ?m2"
    using c by (simp add: process_event_def on_channel_def)
  have h2: "held_notes ch2 = set_bit (unat hi) (set_bit (unat lo) 0)"
    by (simp add: ch2_def del: set_bit_of_0)
  have "release_note ch2 hi = Inr ch3"
    unfolding ch3_def using lohi h2 by (intro release_to_single) simp_all
  then have s3: "process_event ?m2 rhi = Inr ?m3"
    using c by (simp add: process_release [OF rhi] on_channel_def)
  have h3: "held_notes ch3 = set_bit (unat lo) 0"
    by (simp add: ch3_def del: set_bit_of_0)
  have "release_note ch3 lo = Inr ch4"
    unfolding ch4_def using lo h3 by (intro release_last) simp_all
  then have s4: "process_event ?m3 rlo = Inr ?m4"
    using c by (simp add: process_release [OF rlo] on_channel_def)
  show "channel_after m [NOTEON c lo v1, NOTEON c hi v2] (unat c) = Some ch2"
    by (simp add: channel_after_def s1 s2)
  show "channel_after m [NOTEON c lo v1, NOTEON c hi v2, rhi] (unat c) = Some ch3"
    by (simp add: channel_after_def s1 s2 s3)
  show "channel_after m [NOTEON c lo v1, NOTEON c hi v2, rhi, rlo] (unat c) = Some ch4"
    by (simp add: channel_after_def s1 s2 s3 s4)
qed

lemma velocity_captured:
  assumes "process_event m e = Inr m'"
  shows "velocity (channels m' k) =
     (case captured_velocity m e k of Some x \<Rightarrow> x | None \<Rightarrow> velocity (channels m k))"
  using assms
  by (cases e)
     (auto simp: process_event_def on_channel_def press_note_def release_note_def
        key_pressure_def captured_velocity_def bitset_set_def bitset_reset_def Let_def
        split: if_splits sum.splits)

lemma ntf69: "note_to_frequency 69 = 440"
  by (simp add: note_to_frequency_def)

lemma ntf45: "note_to_frequency 45 = 110"
  by (simp add: note_to_frequency_def powr_minus)

lemma key_pressure_after_first_press:
  assumes "unat c < 16" and "v \<noteq> 0" and "unat n < 128"
    and "held_notes (channels m (unat c)) = 0"
  shows "map_option Channel.frequency (channel_after m [NOTEON c n v] (unat c)) =
           Some (note_to_frequency n) \<and>
         map_option aftertouch (channel_after m [NOTEON c n v, KEYPRESS c n' p] (unat c)) =
           Some (if note_to_frequency n = real (unat n') then real (unat p) / 127
                 else aftertouch (channels m (unat c)))"
proof (intro conjI)
  let ?ch = "channels m (unat c)"
  let ?ch1 = "?ch\<lparr>velocity := real (unat v) / 127, held_notes := set_bit (unat n) 0,
             Channel.frequency := note_to_frequency n, gate := 1\<rparr>"
  have "press_note ?ch n v = Inr ?ch1"
    using assms by (intro press_first) simp_all
  then have s1: "process_event m (NOTEON c n v) = Inr (m\<lparr>channels := (channels m)(unat c := ?ch1)\<rparr>)"
    using assms(1) by (simp add: process_event_def on_channel_def)
  show "map_option Channel.frequency (channel_after m [NOTEON c n v] (unat c)) =
           Some (note_to_frequency n)"
    by (simp add: channel_after_def s1)
  show "map_option aftertouch (channel_after m [NOTEON c n v, KEYPRESS c n' p] (unat c)) =
           Some (if note_to_frequency n = real (unat n') then real (unat p) / 127
                 else aftertouch (channels m (unat c)))"
  proof -
    let ?m1 = "m\<lparr>channels := (channels m)(unat c := ?ch1)\<rparr>"
    have "process_event ?m1 (KEYPRESS c n' p) =
        Inr (?m1\<lparr>channels := (channels ?m1)(unat c := key_pressure ?ch1 n' p)\<rparr>)"
      using assms(1) by (simp add: process_event_def on_channel_def)
    then show ?thesis
      by (simp add: channel_after_def s1 key_pressure_def Let_def)
  qed
qed

text \<open>
  C2. On a channel \<open>c\<close> (below 16) on which no note is held, as on every channel of a
  newly constructed adapter: after a note-on for note 60 and a note-on for note 64, both
  with nonzero velocity, the frequency of the channel is that of note 64 and the gate is
  1; the velocity is the one captured at the first note-on, \<open>v1 / 127\<close>. A release of note
  64 (a note-off, or a note-on with velocity 0) brings the frequency back to that of note
  60, the gate staying 1. A release of note 60 as well sets the gate to 0 and the release
  velocity to the channel's velocity, which is the velocity of note 60, the note whose
  release emptied the channel. Last conjunct: whatever the state and the event, the
  velocity of a channel after the event is the one before it, unless the event is a
  note-on with nonzero velocity on that channel arriving when no note was held there.
\<close>

theorem MIDI_note_priority_60_64:
  assumes "unat c < 16" and "v1 \<noteq> 0" and "v2 \<noteq> 0"
    and "held_notes (channels m (unat c)) = 0"
    and "r64 = NOTEOFF c 64 rv \<or> r64 = NOTEON c 64 0"
    and "r60 = NOTEOFF c 60 rv' \<or> r60 = NOTEON c 60 0"
  shows
   "map_option Channel.frequency (channel_after m [NOTEON c 60 v1, NOTEON c 64 v2] (unat c)) =
      Some (note_to_frequency 64) \<and>
    map_option gate (channel_after m [NOTEON c 60 v1, NOTEON c 64 v2] (unat c)) = Some 1 \<and>
    map_option velocity (channel_after m [NOTEON c 60 v1, NOTEON c 64 v2] (unat c)) =
      Some (real (unat v1) / 127) \<and>
    map_option Channel.frequency (channel_after m [NOTEON c 60 v1, NOTEON c 64 v2, r64] (unat c)) =
      Some (note_to_frequency 60) \<and>
    map_option gate (channel_after m [NOTEON c 60 v1, NOTEON c 64 v2, r64] (unat c)) = Some 1 \<and>
    map_option gate (channel_after m [NOTEON c 60 v1, NOTEON c 64 v2, r64, r60] (unat c)) =
      Some 0 \<and>
    map_option release_velocity
      (channel_after m [NOTEON c 60 v1, NOTEON c 64 v2, r64, r60] (unat c)) =
      Some (real (unat v1) / 127) \<and>
    map_option velocity (channel_after m [NOTEON c 60 v1, NOTEON c 64 v2, r64, r60] (unat c)) =
      Some (real (unat v1) / 127) \<and>
    (\<forall>m0 e m' k. process_event m0 e = Inr m' \<longrightarrow>
       velocity (channels m' k) =
         (case captured_velocity m0 e k of Some x \<Rightarrow> x | None \<Rightarrow> velocity (channels m0 k)))"
proof -
  have lohi: "unat (60::8 word) < unat (64::8 word)" "unat (64::8 word) < 128"
    by simp_all
  note sc = two_note_scenario [OF assms(1-3) lohi assms(4-6)]
  show ?thesis
    by (simp only: sc option.map) (simp add: velocity_captured)
qed

text \<open>The theorem on channel 0 of a newly constructed adapter, with velocities 100 and 90.\<close>

theorem MIDI_note_priority_60_64_witness:
  "map_option Channel.frequency (channel_after (MIDI_ctor zeroed_channels)
      [NOTEON 0 60 100, NOTEON 0 64 90] 0) = Some (note_to_frequency 64) \<and>
   map_option gate (channel_after (MIDI_ctor zeroed_channels)
      [NOTEON 0 60 100, NOTEON 0 64 90] 0) = Some 1 \<and>
   map_option velocity (channel_after (MIDI_ctor zeroed_channels)
      [NOTEON 0 60 100, NOTEON 0 64 90] 0) = Some (100 / 127) \<and>
   map_option Channel.frequency (channel_after (MIDI_ctor zeroed_channels)
      [NOTEON 0 60 100, NOTEON 0 64 90, NOTEOFF 0 64 0] 0) = Some (note_to_frequency 60) \<and>
   map_option gate (channel_after (MIDI_ctor zeroed_channels)
      [NOTEON 0 60 100, NOTEON 0 64 90, NOTEOFF 0 64 0, NOTEON 0 60 0] 0) = Some 0 \<and>
   map_option release_velocity (channel_after (MIDI_ctor zeroed_channels)
      [NOTEON 0 60 100, NOTEON 0 64 90, NOTEOFF 0 64 0, NOTEON 0 60 0] 0) = Some (100 / 127)"
  using MIDI_note_priority_60_64
    [of 0 100 90 "MIDI_ctor zeroed_channels" "NOTEOFF 0 64 0" 0 "NOTEON 0 60 0" 0]
  by (simp add: MIDI_ctor_def)

text \<open>
  C5 (the code at the failing input). The claim is that a key pressure event updates the
  aftertouch exactly when its note number is the currently selected note. The code
  compares the channel's frequency, in Hz, with the note number. With note 69 selected
  (440 Hz) a key pressure for note 69 leaves the aftertouch at its old value 0, since
  \<open>440 \<noteq> 69\<close>; with note 45 selected (110 Hz) a key pressure for note 110, which is not
  the selected note, sets the aftertouch to \<open>80 / 127\<close>.
\<close>

theorem KEYPRESS_compares_frequency_with_note_number:
  "map_option Channel.frequency (channel_after (MIDI_ctor zeroed_channels)
      [NOTEON 0 69 100] 0) = Some 440 \<and>
   map_option aftertouch (channel_after (MIDI_ctor zeroed_channels)
      [NOTEON 0 69 100, KEYPRESS 0 69 80] 0) = Some 0 \<and>
   map_option Channel.frequency (channel_after (MIDI_ctor zeroed_channels)
      [NOTEON 0 45 100] 0) = Some (note_to_frequency 45) \<and>
   note_to_frequency 45 = 110 \<and> note_to_frequency 45 \<noteq> note_to_frequency 110 \<and>
   map_option aftertouch (channel_after (MIDI_ctor zeroed_channels)
      [NOTEON 0 45 100, KEYPRESS 0 110 80] 0) = Some (80 / 127)"
proof -
  have z: "held_notes (channels (MIDI_ctor zeroed_channels) (unat (0::8 word))) = 0"
      "aftertouch (channels (MIDI_ctor zeroed_channels) (unat (0::8 word))) = 0"
    by (simp_all add: MIDI_ctor_def zeroed_channels_def zeroed_channel_def)
  have n110: "note_to_frequency 110 = 440 * 2 powr (41 / 12)"
    by (simp add: note_to_frequency_def)
  have "(1::real) < 2 powr (41 / 12)" by simp
  then have "(440::real) * 1 < 440 * 2 powr (41 / 12)"
    by (intro mult_strict_left_mono) simp_all
  then have "(110::real) < 440 * 2 powr (41 / 12)" by linarith
  then have ne: "note_to_frequency 45 \<noteq> note_to_frequency 110"
    unfolding ntf45 n110 by simp
  note k69 = key_pressure_after_first_press [of 0 100 69 "MIDI_ctor zeroed_channels" 69 80]
  note k45 = key_pressure_after_first_press [of 0 100 45 "MIDI_ctor zeroed_channels" 110 80]
  from k69 k45 z ne show ?thesis
    by (simp add: ntf69 ntf45)
qed

subsection \<open>Sequencer\<close>

lemma C4_frequency_bounds:
  "(261.62::real) < 440 * 2 powr (- 3 / 4)" "440 * 2 powr (- 3 / 4) < (261.63::real)"
proof -
  define x :: real where "x = 2 powr (- 3 / 4)"
  have x4: "x ^ 4 = 1 / 8"
  proof -
    have "x ^ 4 = 2 powr (real 4 * (- 3 / 4))"
      unfolding x_def by (rule powr_power) simp
    also have "\<dots> = 2 powr (- 3)" by simp
    also have "\<dots> = 1 / 8" by (simp add: powr_minus divide_simps)
    finally show ?thesis .
  qed
  have x0: "0 \<le> x" by (simp add: x_def)
  have "(26162 / 44000 :: real) ^ 4 < x ^ 4"
    unfolding x4 by (simp add: power4_eq_xxxx)
  then have "(26162 / 44000 :: real) < x" using x0 by (rule power_less_imp_less_base)
  then show "(261.62::real) < 440 * 2 powr (- 3 / 4)"
    unfolding x_def by simp
  have "x ^ 4 < (26163 / 44000 :: real) ^ 4"
    unfolding x4 by (simp add: power4_eq_xxxx)
  then have "x < (26163 / 44000 :: real)" by (rule power_less_imp_less_base) simp
  then show "440 * 2 powr (- 3 / 4) < (261.63::real)"
    unfolding x_def by simp
qed

lemma note_frequencies_length:
  "note_frequencies ns = Inr fs \<Longrightarrow> length fs = length ns"
  by (induction ns arbitrary: fs) (auto split: sum.splits)

lemma Sequencer_ctor_fields:
  assumes "Sequencer_ctor ns f0 g0 = Inr s" and "ns \<noteq> []" and "length ns < 2 ^ 64"
  shows "length (frequencies s) = length ns" and "index s = length ns - 1"
    and "gate_out s = g0" and "note_frequencies ns = Inr (frequencies s)"
proof -
  from assms(1) obtain fs where fs: "note_frequencies ns = Inr fs"
    and s: "s = \<lparr>clock_in = 0, frequencies = fs, frequency_out = f0, gate_out = g0,
               index = (length fs + 2 ^ 64 - 1) mod 2 ^ 64\<rparr>"
    by (auto simp: Sequencer_ctor_def split: sum.splits)
  have len: "length fs = length ns" using fs by (rule note_frequencies_length)
  show "length (frequencies s) = length ns" by (simp add: s len)
  show "gate_out s = g0" by (simp add: s)
  show "note_frequencies ns = Inr (frequencies s)" by (simp add: s fs)
  have "0 < length ns" using assms(2) by simp
  then have "length ns + 2 ^ 64 - 1 = (length ns - 1) + 1 * 2 ^ 64" by simp
  then have "(length ns + 2 ^ 64 - 1) mod 2 ^ 64 = (length ns - 1) mod 2 ^ 64"
    by (simp only: mod_mult_self1)
  also have "\<dots> = length ns - 1" using assms(3) by simp
  finally show "index s = length ns - 1" by (simp add: s len)
qed

lemma Sequencer_update_ok:
  assumes "frequencies s \<noteq> []" and "length (frequencies s) < 2 ^ 64"
    and "index s < length (frequencies s)"
  shows "Sequencer_update s =
     Inr (s\<lparr>index := (index s + (if clock_in s > 0 \<and> gate_out s = 0 then 1 else 0))
                        mod length (frequencies s),
            frequency_out := frequencies s !
               ((index s + (if clock_in s > 0 \<and> gate_out s = 0 then 1 else 0))
                        mod length (frequencies s)),
            gate_out := (if clock_in s > 0 then 1 else 0)\<rparr>)"
proof -
  have "index s + 1 < 2 ^ 64" using assms(2,3) by simp
  then have "(index s + 1) mod 2 ^ 64 = index s + 1" by simp
  then show ?thesis
    using assms by (simp add: Sequencer_update_def Let_def)
qed

lemma Sequencer_run_index:
  assumes "frequencies s \<noteq> []" and "length (frequencies s) < 2 ^ 64"
    and "index s < length (frequencies s)"
  shows "\<exists>s'. Sequencer_run s cs = Inr s' \<and>
           frequencies s' = frequencies s \<and>
           index s' = (index s + rising_edges (gate_out s) cs) mod length (frequencies s) \<and>
           (cs \<noteq> [] \<longrightarrow> frequency_out s' = frequencies s ! index s' \<and>
                        gate_out s' = (if last cs > 0 then 1 else 0))"
  using assms
proof (induction cs arbitrary: s)
  case Nil
  then show ?case by simp
next
  case (Cons c cs)
  let ?n = "length (frequencies s)"
  let ?e = "if c > 0 \<and> gate_out s = 0 then 1 else (0::nat)"
  let ?s1 = "s\<lparr>clock_in := c, index := (index s + ?e) mod ?n,
               frequency_out := frequencies s ! ((index s + ?e) mod ?n),
               gate_out := (if c > 0 then 1 else 0)\<rparr>"
  have u: "Sequencer_update (s\<lparr>clock_in := c\<rparr>) = Inr ?s1"
    using Sequencer_update_ok [of "s\<lparr>clock_in := c\<rparr>"] Cons.prems by simp
  have n0: "0 < ?n" using Cons.prems by simp
  have "\<exists>s'. Sequencer_run ?s1 cs = Inr s' \<and>
           frequencies s' = frequencies ?s1 \<and>
           index s' = (index ?s1 + rising_edges (gate_out ?s1) cs) mod length (frequencies ?s1) \<and>
           (cs \<noteq> [] \<longrightarrow> frequency_out s' = frequencies ?s1 ! index s' \<and>
                        gate_out s' = (if last cs > 0 then 1 else 0))"
    using Cons.prems n0 by (intro Cons.IH) simp_all
  then obtain s' where s': "Sequencer_run ?s1 cs = Inr s'" "frequencies s' = frequencies s"
    "index s' = ((index s + ?e) mod ?n + rising_edges (if c > 0 then 1 else 0) cs) mod ?n"
    "cs \<noteq> [] \<longrightarrow> frequency_out s' = frequencies s ! index s' \<and>
                        gate_out s' = (if last cs > 0 then 1 else 0)"
    by auto
  have idx: "index s' = (index s + rising_edges (gate_out s) (c # cs)) mod ?n"
    unfolding s'(3) by (simp add: mod_add_left_eq add.assoc)
  have fin: "cs = [] \<Longrightarrow> s' = ?s1" using s'(1) by simp
  show ?case
  proof (intro exI conjI impI)
    show "Sequencer_run s (c # cs) = Inr s'" by (simp add: u s'(1))
    show "frequencies s' = frequencies s" by (rule s'(2))
    show "index s' = (index s + rising_edges (gate_out s) (c # cs)) mod ?n" by (rule idx)
    show "frequency_out s' = frequencies s ! index s'"
      using s'(4) fin by (cases "cs = []") simp_all
    show "gate_out s' = (if last (c # cs) > 0 then 1 else 0)"
      using s'(4) fin by (cases "cs = []") simp_all
  qed
qed

lemma Sequencer_after_index:
  assumes "frequencies s \<noteq> []" and "length (frequencies s) < 2 ^ 64"
    and "index s < length (frequencies s)"
  shows "map_option index (Sequencer_after s cs) =
           Some ((index s + rising_edges (gate_out s) cs) mod length (frequencies s))"
    and "map_option frequencies (Sequencer_after s cs) = Some (frequencies s)"
    and "cs \<noteq> [] \<Longrightarrow> map_option frequency_out (Sequencer_after s cs) =
           Some (frequencies s ! ((index s + rising_edges (gate_out s) cs) mod length (frequencies s)))"
    and "cs \<noteq> [] \<Longrightarrow> map_option gate_out (Sequencer_after s cs) =
           Some (if last cs > 0 then 1 else 0)"
  using Sequencer_run_index [OF assms, of cs] by (auto simp: Sequencer_after_def)

text \<open>
  C6. A sequencer constructed from a list of \<open>n\<close> note names (\<open>n \<ge> 1\<close>, and below
  \<open>2 ^ 64\<close> as every vector is) has \<open>n\<close> frequencies and its index at \<open>n - 1\<close>. Over any
  sequence \<open>cs\<close> of clock values, one update each, no update faults and the index ends at
  \<open>(n - 1 + k) mod n\<close>, where \<open>k\<close> is the number of rising edges in \<open>cs\<close> (clock above 0
  while the cleaned gate of the tick before was 0). So the first pulse, a clock value
  above 0 arriving while the gate is 0, selects element 0 and outputs \<open>frequencies[0]\<close>;
  so does any run with exactly one rising edge; \<open>n\<close> further rising edges (\<open>1 + n\<close> in
  all) bring the index back to element 0. After every tick the gate output is 1 when
  that tick's clock value is above 0 and 0 otherwise, and the frequency output is the
  element at the index. The note name \<open>C4\<close> is parsed to \<open>440 * 2 powr (- 3 / 4)\<close>, which
  lies between 261.62 and 261.63.
\<close>

theorem Sequencer_first_pulse_and_wrap:
  assumes "Sequencer_ctor note_names f0 g0 = Inr s"
    and "note_names \<noteq> []" and "length note_names < 2 ^ 64"
  shows "index s = length note_names - 1 \<and>
    length (frequencies s) = length note_names \<and>
    map_option index (Sequencer_after s cs) =
      Some ((length note_names - 1 + rising_edges (gate_out s) cs) mod length note_names) \<and>
    (0 < c \<and> gate_out s = 0 \<longrightarrow>
       map_option index (Sequencer_after s [c]) = Some 0 \<and>
       map_option frequency_out (Sequencer_after s [c]) = Some (frequencies s ! 0)) \<and>
    (rising_edges (gate_out s) cs = 1 \<longrightarrow>
       map_option index (Sequencer_after s cs) = Some 0 \<and>
       map_option frequency_out (Sequencer_after s cs) = Some (frequencies s ! 0)) \<and>
    (rising_edges (gate_out s) cs = 1 + length note_names \<longrightarrow>
       map_option index (Sequencer_after s cs) = Some 0 \<and>
       map_option frequency_out (Sequencer_after s cs) = Some (frequencies s ! 0)) \<and>
    (cs \<noteq> [] \<longrightarrow>
       map_option gate_out (Sequencer_after s cs) = Some (if last cs > 0 then 1 else 0) \<and>
       map_option frequency_out (Sequencer_after s cs) =
         Some (frequencies s !
           ((length note_names - 1 + rising_edges (gate_out s) cs) mod length note_names))) \<and>
    note_name_frequency ''C4'' = Inr (440 * 2 powr (- 3 / 4)) \<and>
    (261.62::real) < 440 * 2 powr (- 3 / 4) \<and> 440 * 2 powr (- 3 / 4) < (261.63::real)"
proof -
  let ?n = "length note_names"
  note f = Sequencer_ctor_fields [OF assms]
  have pre: "frequencies s \<noteq> []" "length (frequencies s) < 2 ^ 64"
    "index s < length (frequencies s)"
    using f(1,2) assms(2,3) by auto
  note a = Sequencer_after_index [OF pre]
  have idx: "map_option index (Sequencer_after s cs) =
      Some ((?n - 1 + rising_edges (gate_out s) cs) mod ?n)" for cs
    using a(1) [of cs] by (simp only: f(1,2))
  have out: "map_option frequency_out (Sequencer_after s cs) =
      Some (frequencies s ! ((?n - 1 + rising_edges (gate_out s) cs) mod ?n))"
    if "cs \<noteq> []" for cs
    using a(3) [OF that] by (simp only: f(1,2))
  have n0: "0 < ?n" using assms(2) by simp
  have one: "(?n - 1 + 1) mod ?n = 0" using n0 by simp
  have "?n - 1 + (1 + ?n) = 2 * ?n" using n0 by simp
  then have wrap: "(?n - 1 + (1 + ?n)) mod ?n = 0" by (simp only: mod_mult_self2_is_0)
  have first: "0 < c \<and> gate_out s = 0 \<longrightarrow>
       map_option index (Sequencer_after s [c]) = Some 0 \<and>
       map_option frequency_out (Sequencer_after s [c]) = Some (frequencies s ! 0)"
  proof
    assume "0 < c \<and> gate_out s = 0"
    then have r: "rising_edges (gate_out s) [c] = 1" by simp
    show "map_option index (Sequencer_after s [c]) = Some 0 \<and>
       map_option frequency_out (Sequencer_after s [c]) = Some (frequencies s ! 0)"
      using idx [of "[c]"] out [of "[c]"] unfolding r one by simp
  qed
  have e1: "rising_edges (gate_out s) cs = 1 \<longrightarrow>
       map_option index (Sequencer_after s cs) = Some 0 \<and>
       map_option frequency_out (Sequencer_after s cs) = Some (frequencies s ! 0)"
  proof
    assume e: "rising_edges (gate_out s) cs = 1"
    then have ne: "cs \<noteq> []" by auto
    show "map_option index (Sequencer_after s cs) = Some 0 \<and>
       map_option frequency_out (Sequencer_after s cs) = Some (frequencies s ! 0)"
      using idx [of cs] out [OF ne] unfolding e one by simp
  qed
  have en: "rising_edges (gate_out s) cs = 1 + ?n \<longrightarrow>
       map_option index (Sequencer_after s cs) = Some 0 \<and>
       map_option frequency_out (Sequencer_after s cs) = Some (frequencies s ! 0)"
  proof
    assume e: "rising_edges (gate_out s) cs = 1 + ?n"
    then have ne: "cs \<noteq> []" by auto
    show "map_option index (Sequencer_after s cs) = Some 0 \<and>
       map_option frequency_out (Sequencer_after s cs) = Some (frequencies s ! 0)"
      using idx [of cs] out [OF ne] unfolding e wrap by simp
  qed
  have gate: "cs \<noteq> [] \<longrightarrow>
       map_option gate_out (Sequencer_after s cs) = Some (if last cs > 0 then 1 else 0) \<and>
       map_option frequency_out (Sequencer_after s cs) =
         Some (frequencies s ! ((?n - 1 + rising_edges (gate_out s) cs) mod ?n))"
    using a(4) [of cs] out [of cs] by blast
  have c4: "note_name_frequency ''C4'' = Inr (440 * 2 powr (- 3 / 4))"
    by (simp add: note_name_frequency_def is_digit_def base_notes_def stoi_def)
  from f(1,2) idx [of cs] first e1 en gate c4 C4_frequency_bounds
  show ?thesis by (intro conjI) assumption+
qed

text \<open>
  The theorem at the sequencer of the notes C4, E4, G4, C5: one pulse, five pulses
  separated by low clock values, and a pulse followed by a low clock value.
\<close>

theorem Sequencer_first_pulse_and_wrap_witness:
  "Sequencer_ctor [''C4'', ''E4'', ''G4'', ''C5''] 0 0 =
     Inr \<lparr>clock_in = 0,
          frequencies = [440 * 2 powr (- 3 / 4), 440 * 2 powr (- 5 / 12),
                         440 * 2 powr (- 1 / 6), 440 * 2 powr (1 / 4)],
          frequency_out = 0, gate_out = 0, index = 3\<rparr> \<and>
   map_option index (Sequencer_after
      \<lparr>clock_in = 0,
       frequencies = [440 * 2 powr (- 3 / 4), 440 * 2 powr (- 5 / 12),
                      440 * 2 powr (- 1 / 6), 440 * 2 powr (1 / 4)],
       frequency_out = 0, gate_out = 0, index = 3\<rparr> [1]) = Some 0 \<and>
   map_option frequency_out (Sequencer_after
      \<lparr>clock_in = 0,
       frequencies = [440 * 2 powr (- 3 / 4), 440 * 2 powr (- 5 / 12),
                      440 * 2 powr (- 1 / 6), 440 * 2 powr (1 / 4)],
       frequency_out = 0, gate_out = 0, index = 3\<rparr> [1]) = Some (440 * 2 powr (- 3 / 4)) \<and>
   map_option index (Sequencer_after
      \<lparr>clock_in = 0,
       frequencies = [440 * 2 powr (- 3 / 4), 440 * 2 powr (- 5 / 12),
                      440 * 2 powr (- 1 / 6), 440 * 2 powr (1 / 4)],
       frequency_out = 0, gate_out = 0, index = 3\<rparr> [1, 0, 1, 0, 1, 0, 1, 0, 1]) = Some 0 \<and>
   map_option gate_out (Sequencer_after
      \<lparr>clock_in = 0,
       frequencies = [440 * 2 powr (- 3 / 4), 440 * 2 powr (- 5 / 12),
                      440 * 2 powr (- 1 / 6), 440 * 2 powr (1 / 4)],
       frequency_out = 0, gate_out = 0, index = 3\<rparr> [1, 0]) = Some 0"
proof -
  let ?s = "\<lparr>clock_in = 0,
       frequencies = [440 * 2 powr (- 3 / 4), 440 * 2 powr (- 5 / 12),
                      440 * 2 powr (- 1 / 6), 440 * 2 powr (1 / 4)],
       frequency_out = 0, gate_out = 0, index = 3\<rparr>"
  have ctor: "Sequencer_ctor [''C4'', ''E4'', ''G4'', ''C5''] 0 0 = Inr ?s"
    by (simp add: Sequencer_ctor_def note_name_frequency_def is_digit_def base_notes_def
        stoi_def)
  have ne: "[''C4'', ''E4'', ''G4'', ''C5''] \<noteq> []"
    and len: "length [''C4'', ''E4'', ''G4'', ''C5''] < (2::nat) ^ 64"
    by simp_all
  note t = Sequencer_first_pulse_and_wrap [OF ctor ne len]
  from t [of "[1]" 1] t [of "[1, 0, 1, 0, 1, 0, 1, 0, 1]" 1] t [of "[1, 0]" 1] ctor
  show ?thesis by simp
qed

subsection \<open>Registration order\<close>

lemma registered_eq: "registered ms = ms"
proof -
  have "fold Module_ctor ms acc = acc @ ms" for acc :: "'a list"
    by (induction ms arbitrary: acc) (simp_all add: Module_ctor_def)
  then show ?thesis by (simp add: registered_def)
qed

lemma ports_reset: "ports (reset_accumulators w) = ports w"
  by (simp add: reset_accumulators_def)

lemma Wire_ports: "ports (Wire_update a b w) b = ports w a"
  by (simp add: Wire_update_def)

text \<open>
  C3 (counterexample). \<open>A\<close> is a linear slew (ports 0, 1, 2: input 10, rate 48000, output
  starting at 0, so the output rises by 1 each tick), \<open>B\<close> an amplifier reading port 3,
  and the Wire copies port 2 to port 3. With the Wire registered after both (\<open>A\<close>, \<open>B\<close>,
  Wire), in the second tick \<open>B\<close> is called with 1 at its input while \<open>A\<close> has produced 2
  in that tick: \<open>B\<close> observes the previous tick's value, not the same tick's. With the
  Wire and \<open>B\<close> registered before \<open>A\<close> (\<open>B\<close>, Wire, \<open>A\<close>), in the third tick \<open>B\<close> is called
  with 1 at its input while the value \<open>A\<close> produced in the previous tick is 2.
\<close>

theorem Wire_after_both_counterexample:
  "ports (world_seen_by
      (registered [LinearSlew_update 0 1 2, VCA_update 3 4 5, Wire_update 2 3]) 1
      (tick (registered [LinearSlew_update 0 1 2, VCA_update 3 4 5, Wire_update 2 3])
        \<lparr>ports = zero_ports(0 := 10, 1 := 48000), audio_left = 0, audio_right = 0\<rparr>)) 3 = 1 \<and>
   ports (world_left_by
      (registered [LinearSlew_update 0 1 2, VCA_update 3 4 5, Wire_update 2 3]) 0
      (tick (registered [LinearSlew_update 0 1 2, VCA_update 3 4 5, Wire_update 2 3])
        \<lparr>ports = zero_ports(0 := 10, 1 := 48000), audio_left = 0, audio_right = 0\<rparr>)) 2 = 2 \<and>
   ports (world_seen_by
      (registered [VCA_update 3 4 5, Wire_update 2 3, LinearSlew_update 0 1 2]) 0
      (tick (registered [VCA_update 3 4 5, Wire_update 2 3, LinearSlew_update 0 1 2])
        (tick (registered [VCA_update 3 4 5, Wire_update 2 3, LinearSlew_update 0 1 2])
          \<lparr>ports = zero_ports(0 := 10, 1 := 48000), audio_left = 0, audio_right = 0\<rparr>))) 3 = 1 \<and>
   ports (world_left_by
      (registered [VCA_update 3 4 5, Wire_update 2 3, LinearSlew_update 0 1 2]) 2
      (tick (registered [VCA_update 3 4 5, Wire_update 2 3, LinearSlew_update 0 1 2])
        \<lparr>ports = zero_ports(0 := 10, 1 := 48000), audio_left = 0, audio_right = 0\<rparr>)) 2 = 2"
  by (simp add: registered_eq world_seen_by_def world_left_by_def tick_def update_modules_def
      reset_accumulators_def LinearSlew_update_def VCA_update_def Wire_update_def Let_def dt_def
      zero_ports_def)

text \<open>
  C3 (amended). Let \<open>A\<close> and \<open>B\<close> be modules, \<open>A\<close> not writing the input port of \<open>B\<close> and
  \<open>B\<close> not writing the output port of \<open>A\<close>, and let a Wire copy the output port of \<open>A\<close>
  to the input port of \<open>B\<close>; the registry holds these three. When the Wire is registered
  after \<open>A\<close> and before \<open>B\<close> (order \<open>A\<close>, Wire, \<open>B\<close>), the update of \<open>B\<close> is called with the
  value \<open>A\<close> produced in the same tick. In the orders (\<open>A\<close>, \<open>B\<close>, Wire), (\<open>B\<close>, \<open>A\<close>, Wire),
  (Wire, \<open>A\<close>, \<open>B\<close>) and (Wire, \<open>B\<close>, \<open>A\<close>) it is called with the value \<open>A\<close> produced in the
  previous tick. In the order (\<open>B\<close>, Wire, \<open>A\<close>) it is called with the value \<open>A\<close> produced
  two ticks earlier.
\<close>

theorem Wire_registration_order:
  assumes fA: "\<forall>w. ports (A w) b_in = ports w b_in"
    and fB: "\<forall>w. ports (B w) a_out = ports w a_out"
  defines "W \<equiv> Wire_update a_out b_in"
  shows
    "ports (world_seen_by (registered [A, W, B]) 2 w) b_in =
       ports (world_left_by (registered [A, W, B]) 0 w) a_out \<and>
     ports (world_seen_by (registered [A, B, W]) 1 (tick (registered [A, B, W]) w)) b_in =
       ports (world_left_by (registered [A, B, W]) 0 w) a_out \<and>
     ports (world_seen_by (registered [B, A, W]) 0 (tick (registered [B, A, W]) w)) b_in =
       ports (world_left_by (registered [B, A, W]) 1 w) a_out \<and>
     ports (world_seen_by (registered [W, A, B]) 2 (tick (registered [W, A, B]) w)) b_in =
       ports (world_left_by (registered [W, A, B]) 1 w) a_out \<and>
     ports (world_seen_by (registered [W, B, A]) 1 (tick (registered [W, B, A]) w)) b_in =
       ports (world_left_by (registered [W, B, A]) 2 w) a_out \<and>
     ports (world_seen_by (registered [B, W, A]) 0
        (tick (registered [B, W, A]) (tick (registered [B, W, A]) w))) b_in =
       ports (world_left_by (registered [B, W, A]) 2 w) a_out"
  using fA fB
  by (simp add: registered_eq world_seen_by_def world_left_by_def tick_def update_modules_def
      W_def Wire_ports ports_reset)

text \<open>
  The theorem at the linear slew and the amplifier of the counterexample: in the order
  (\<open>A\<close>, Wire, \<open>B\<close>) the amplifier is called in the first tick with the 1 the slew has
  just produced.
\<close>

theorem Wire_registration_order_witness:
  "ports (world_seen_by
      (registered [LinearSlew_update 0 1 2, Wire_update 2 3, VCA_update 3 4 5]) 2
      \<lparr>ports = zero_ports(0 := 10, 1 := 48000), audio_left = 0, audio_right = 0\<rparr>) 3 =
   ports (world_left_by
      (registered [LinearSlew_update 0 1 2, Wire_update 2 3, VCA_update 3 4 5]) 0
      \<lparr>ports = zero_ports(0 := 10, 1 := 48000), audio_left = 0, audio_right = 0\<rparr>) 2 \<and>
   ports (world_left_by
      (registered [LinearSlew_update 0 1 2, Wire_update 2 3, VCA_update 3 4 5]) 0
      \<lparr>ports = zero_ports(0 := 10, 1 := 48000), audio_left = 0, audio_right = 0\<rparr>) 2 = 1 \<and>
   ports (world_seen_by
      (registered [LinearSlew_update 0 1 2, VCA_update 3 4 5, Wire_update 2 3]) 1
      (tick (registered [LinearSlew_update 0 1 2, VCA_update 3 4 5, Wire_update 2 3])
        \<lparr>ports = zero_ports(0 := 10, 1 := 48000), audio_left = 0, audio_right = 0\<rparr>)) 3 =
   ports (world_left_by
      (registered [LinearSlew_update 0 1 2, VCA_update 3 4 5, Wire_update 2 3]) 0
      \<lparr>ports = zero_ports(0 := 10, 1 := 48000), audio_left = 0, audio_right = 0\<rparr>) 2"
proof -
  have fA: "\<forall>w. ports (LinearSlew_update 0 1 2 w) 3 = ports w 3"
    by (simp add: LinearSlew_update_def Let_def)
  have fB: "\<forall>w. ports (VCA_update 3 4 5 w) 2 = ports w 2"
    by (simp add: VCA_update_def)
  have v: "ports (world_left_by
      (registered [LinearSlew_update 0 1 2, Wire_update 2 3, VCA_update 3 4 5]) 0
      \<lparr>ports = zero_ports(0 := 10, 1 := 48000), audio_left = 0, audio_right = 0\<rparr>) 2 = 1"
    by (simp add: registered_eq world_left_by_def update_modules_def reset_accumulators_def
        LinearSlew_update_def Let_def dt_def zero_ports_def)
  from Wire_registration_order [OF fA fB,
      of "\<lparr>ports = zero_ports(0 := 10, 1 := 48000), audio_left = 0, audio_right = 0\<rparr>"] v
  show ?thesis by simp
qed

end
